theory Spec2Isabelle
  imports Complex_Main
begin

section \<open>Data model\<close>

text \<open>
  The repository holds two variants of \<^verbatim>\<open>index.js\<close>: a subscription variant, whose
  \<^verbatim>\<open>startListening\<close> registers a callback per matching log, and a polling variant, whose
  \<^verbatim>\<open>startListening\<close> registers a callback per new block and fetches the logs of a block
  range. \<^verbatim>\<open>getTokenMeta\<close>, \<^verbatim>\<open>formatAmount\<close>, \<^verbatim>\<open>txLink\<close> and \<^verbatim>\<open>handleLog\<close> are the same in
  both.

  The callbacks are \<^verbatim>\<open>async\<close> and nothing serialises them: a callback that is waiting
  for the network lets the next one start. They are modelled twice. \<^verbatim>\<open>handleLog\<close>,
  \<^verbatim>\<open>onLog\<close> and \<^verbatim>\<open>onBlock\<close> are a callback run from its start to its end with no
  other callback in between: a state goes in, the state after the last \<^verbatim>\<open>await\<close> comes
  out. The section on callbacks in steps cuts the same code at the \<^verbatim>\<open>await\<close> of
  \<^verbatim>\<open>bot.sendMessage\<close> and of \<^verbatim>\<open>provider.getLogs\<close>, so that one callback can start while
  another is waiting there.

  A log as delivered by the provider.
\<close>

record log =
  address :: string
  topics :: "string list"
  data :: string
  transactionHash :: string
  blockNumber :: int

text \<open>The arguments of a decoded Transfer event (\<^verbatim>\<open>parsed.args\<close>).\<close>

record transfer =
  arg_from :: string
  arg_to :: string
  arg_value :: nat

text \<open>
  A token metadata object. The placeholder of \<^verbatim>\<open>handleLog\<close> has no \<^verbatim>\<open>fetchedAt\<close>.
\<close>

record meta =
  symbol :: string
  decimals :: nat
  fetchedAt :: "nat option"

datatype classification = Mint | Burn | Ignored

text \<open>
  The message handed to \<^verbatim>\<open>bot.sendMessage\<close> is a fixed Markdown template; the record
  keeps the values that fill its holes, in the order of the template.
\<close>

record msg =
  m_type :: classification
  m_symbol :: string
  m_tokenAddr :: string
  m_from :: string
  m_to :: string
  m_amount :: string
  m_tx :: string
  m_link :: string
  m_block :: int

text \<open>
  Everything the program does to the outside, and the decoding work, is appended to a
  trace: so that "nothing happened" is a statement about the state.
\<close>

datatype effect =
    ParseLog log
  | CallSymbol string
  | CallDecimals string
  | Backoff rat
  | ConsoleWarn string
  | ConsoleError string
  | SendMessage msg bool
  | GetLogs int int
  | GetBlockNumber
  | SetTimeout nat int

text \<open>
  The module-level caches \<^verbatim>\<open>tokenCache\<close> (a Map) and \<^verbatim>\<open>lastSeenTx\<close> (a Set, which
  JavaScript iterates in insertion order: a list without duplicates), and the
  \<^verbatim>\<open>lastProcessedBlock\<close> of the polling variant's closure.
\<close>

record state =
  tokenCache :: "string \<rightharpoonup> meta"
  lastSeenTx :: "string list"
  lastProcessedBlock :: int
  trace :: "effect list"

definition initial :: state where
  "initial = \<lparr>tokenCache = Map.empty, lastSeenTx = [], lastProcessedBlock = 0, trace = []\<rparr>"

text \<open>
  The collaborators that are not part of the repository. The pure library functions of
  ethers depend on their argument only; \<^verbatim>\<open>None\<close> is a thrown exception
  (for \<^verbatim>\<open>parseLog\<close> also the \<^verbatim>\<open>null\<close> result, on which \<^verbatim>\<open>parsed.args\<close> throws).
  The answers of the chain and of Telegram depend on when they are asked: their first
  argument is the number of effects performed so far.
  \<^verbatim>\<open>retry_minTimeout\<close> is the first wait of the retry package, in milliseconds.
  \<^verbatim>\<open>CONFIRMATIONS\<close> is the number read from the environment (a value that is not a
  number makes every comparison false in JavaScript, as any value below 2 does here).
\<close>

record world =
  parseLog :: "log \<Rightarrow> transfer option"
  getAddress :: "string \<Rightarrow> string option"
  formatUnits :: "nat \<Rightarrow> nat \<Rightarrow> string option"
  contract_symbol :: "nat \<Rightarrow> string \<Rightarrow> string option"
  contract_decimals :: "nat \<Rightarrow> string \<Rightarrow> nat option"
  bot_sendMessage :: "nat \<Rightarrow> msg \<Rightarrow> bool"
  provider_getLogs :: "nat \<Rightarrow> int \<Rightarrow> int \<Rightarrow> log list option"
  provider_getBlockNumber :: "nat \<Rightarrow> int option"
  Date_now :: "nat \<Rightarrow> nat"
  retry_minTimeout :: rat
  CONFIRMATIONS :: int

definition tick :: "state \<Rightarrow> nat" where
  "tick s = length (trace s)"

definition emit :: "effect \<Rightarrow> state \<Rightarrow> state" where
  "emit e s = s\<lparr>trace := trace s @ [e]\<rparr>"

text \<open>The effects performed between an earlier state and a later one.\<close>

definition new_effects :: "state \<Rightarrow> state \<Rightarrow> effect list" where
  "new_effects s s' = drop (length (trace s)) (trace s')"

section \<open>Strings\<close>

definition lower_char :: "char \<Rightarrow> char" where
  "lower_char c =
     (let n = (of_char c :: nat) in if 65 \<le> n \<and> n \<le> 90 then char_of (n + 32) else c)"

definition toLowerCase :: "string \<Rightarrow> string" where
  "toLowerCase str = map lower_char str"

definition digit_char :: "nat \<Rightarrow> char" where
  "digit_char d = ''0123456789'' ! d"

fun toString :: "nat \<Rightarrow> string" where
  "toString n = (if n < 10 then [digit_char n] else toString (n div 10) @ [digit_char (n mod 10)])"

declare toString.simps [simp del]

definition ZERO :: string where
  "ZERO = ''0x0000000000000000000000000000000000000000''"

section \<open>The retry policy\<close>

text \<open>
  Modelled from the spec: \<^verbatim>\<open>pRetry\<close> is imported from the package p-retry, which is not
  among the sources. It is a retry policy with a number of retries and a backoff
  multiplier: it runs the operation, and after a failure runs it again, at most
  \<^verbatim>\<open>retries\<close> more times, each wait being \<^verbatim>\<open>factor\<close> times the one before; when the last
  attempt fails it throws. The first wait is the package's own setting, a parameter
  here.
\<close>

record retry_opts =
  retries :: nat
  factor :: rat

fun pRetry_loop ::
  "nat \<Rightarrow> nat \<Rightarrow> rat \<Rightarrow> rat \<Rightarrow> (state \<Rightarrow> 'a option \<times> state) \<Rightarrow> state \<Rightarrow>
   'a option \<times> state" where
  "pRetry_loop 0 k b f run s = run s"
| "pRetry_loop (Suc n) k b f run s =
     (case run s of
        (Some v, s') \<Rightarrow> (Some v, s')
      | (None, s') \<Rightarrow> pRetry_loop n (Suc k) b f run (emit (Backoff (b * f ^ k)) s'))"

definition pRetry ::
  "rat \<Rightarrow> (state \<Rightarrow> 'a option \<times> state) \<Rightarrow> retry_opts \<Rightarrow> state \<Rightarrow> 'a option \<times> state" where
  "pRetry b run opts s = pRetry_loop (retries opts) 0 b (factor opts) run s"

section \<open>Token metadata\<close>

definition call_symbol :: "world \<Rightarrow> string \<Rightarrow> state \<Rightarrow> string option \<times> state" where
  "call_symbol w a s = (contract_symbol w (tick s) a, emit (CallSymbol a) s)"

definition call_decimals :: "world \<Rightarrow> string \<Rightarrow> state \<Rightarrow> nat option \<times> state" where
  "call_decimals w a s = (contract_decimals w (tick s) a, emit (CallDecimals a) s)"

text \<open>\<^verbatim>\<open>getTokenMeta\<close>; \<^verbatim>\<open>None\<close> is a thrown exception.\<close>

definition getTokenMeta :: "world \<Rightarrow> string \<Rightarrow> state \<Rightarrow> meta option \<times> state" where
  "getTokenMeta w addr s =
     (case getAddress w addr of
        None \<Rightarrow> (None, s)
      | Some a \<Rightarrow>
          (case tokenCache s a of
             Some m \<Rightarrow> (Some m, s)
           | None \<Rightarrow>
               (case pRetry (retry_minTimeout w) (call_symbol w a) \<lparr>retries = 2, factor = 3 / 2\<rparr> s of
                  (None, s1) \<Rightarrow> (None, s1)
                | (Some sy, s1) \<Rightarrow>
                    (case pRetry (retry_minTimeout w) (call_decimals w a) \<lparr>retries = 2, factor = 3 / 2\<rparr> s1 of
                       (None, s2) \<Rightarrow> (None, s2)
                     | (Some dc, s2) \<Rightarrow>
                         (let m = \<lparr>symbol = sy, decimals = dc,
                                   fetchedAt = Some (Date_now w (tick s2))\<rparr>
                          in (Some m, s2\<lparr>tokenCache := (tokenCache s2)(a \<mapsto> m)\<rparr>))))))"

definition formatAmount :: "world \<Rightarrow> nat \<Rightarrow> nat \<Rightarrow> string" where
  "formatAmount w valueBN dcs =
     (case formatUnits w valueBN dcs of Some str \<Rightarrow> str | None \<Rightarrow> toString valueBN)"

definition txLink :: "string \<Rightarrow> string" where
  "txLink txHash = ''https://basescan.org/tx/'' @ txHash"

section \<open>Handling one log\<close>

text \<open>The test on sender and recipient, and the choice of the label.\<close>

definition classify :: "string \<Rightarrow> string \<Rightarrow> classification" where
  "classify sender recipient =
     (if toLowerCase sender \<noteq> ZERO \<and> toLowerCase recipient \<noteq> ZERO then Ignored
      else if toLowerCase sender = ZERO then Mint else Burn)"

text \<open>
  \<^verbatim>\<open>lastSeenTx.add\<close> followed by the eviction: the iterator of a Set yields the entries
  in insertion order, and the loop deletes the first 200 of them.
\<close>

definition set_add :: "'a \<Rightarrow> 'a list \<Rightarrow> 'a list" where
  "set_add x xs = (if x \<in> set xs then xs else xs @ [x])"

definition record_seen :: "'a \<Rightarrow> 'a list \<Rightarrow> 'a list" where
  "record_seen tx seen =
     (let seen' = set_add tx seen in if length seen' > 1000 then drop 200 seen' else seen')"

definition placeholder :: meta where
  "placeholder = \<lparr>symbol = ''TOKEN'', decimals = 18, fetchedAt = None\<rparr>"

text \<open>
  The inner \<^verbatim>\<open>try\<close> of \<^verbatim>\<open>handleLog\<close> around \<^verbatim>\<open>getTokenMeta\<close>, whose \<^verbatim>\<open>catch\<close> warns
  and takes the placeholder.
\<close>

definition meta_or_placeholder :: "world \<Rightarrow> string \<Rightarrow> state \<Rightarrow> meta \<times> state" where
  "meta_or_placeholder w tokenAddr s =
     (case getTokenMeta w tokenAddr s of
        (Some m, s') \<Rightarrow> (m, s')
      | (None, s') \<Rightarrow> (placeholder, emit (ConsoleWarn tokenAddr) s'))"

text \<open>The message built by \<^verbatim>\<open>handleLog\<close>.\<close>

definition message ::
  "world \<Rightarrow> classification \<Rightarrow> meta \<Rightarrow> string \<Rightarrow> transfer \<Rightarrow> log \<Rightarrow> msg" where
  "message w ty m tokenAddr parsed lg =
     (let amountStr = formatAmount w (arg_value parsed) (decimals m)
      in \<lparr>m_type = ty, m_symbol = symbol m, m_tokenAddr = tokenAddr,
          m_from = arg_from parsed, m_to = arg_to parsed,
          m_amount = amountStr, m_tx = transactionHash lg,
          m_link = txLink (transactionHash lg),
          m_block = blockNumber lg\<rparr>)"

text \<open>
  The body of the outer \<^verbatim>\<open>try\<close> block of \<^verbatim>\<open>handleLog\<close>: \<^verbatim>\<open>Inl\<close> is an exception
  thrown in it, with the state reached; \<^verbatim>\<open>Inr\<close> is its normal end, also by
  \<^verbatim>\<open>return\<close>. Then \<^verbatim>\<open>handleLog\<close> with its \<^verbatim>\<open>catch\<close>.
\<close>

definition handleLog_try :: "world \<Rightarrow> log \<Rightarrow> state \<Rightarrow> state + state" where
  "handleLog_try w lg s =
     (if transactionHash lg \<in> set (lastSeenTx s) then Inr s
      else
        (let s1 = emit (ParseLog lg) s in
         case parseLog w lg of
           None \<Rightarrow> Inl s1
         | Some parsed \<Rightarrow>
             (case classify (arg_from parsed) (arg_to parsed) of
                Ignored \<Rightarrow> Inr s1
              | ty \<Rightarrow>
                  (case getAddress w (address lg) of
                     None \<Rightarrow> Inl s1
                   | Some tokenAddr \<Rightarrow>
                       (let (m, s3) = meta_or_placeholder w tokenAddr s1;
                            ms = message w ty m tokenAddr parsed lg
                        in if bot_sendMessage w (tick s3) ms
                           then Inr ((emit (SendMessage ms True) s3)
                                  \<lparr>lastSeenTx := record_seen (transactionHash lg) (lastSeenTx s3)\<rparr>)
                           else Inl (emit (SendMessage ms False) s3))))))"

definition handleLog :: "world \<Rightarrow> log \<Rightarrow> state \<Rightarrow> state" where
  "handleLog w lg s =
     (case handleLog_try w lg s of
        Inl s' \<Rightarrow> emit (ConsoleError ''Error handling log:'') s'
      | Inr s' \<Rightarrow> s')"

section \<open>The subscription variant\<close>

text \<open>
  The callback registered by \<^verbatim>\<open>startListening\<close> for each matching log, together with
  the \<^verbatim>\<open>handleLog\<close> that it starts and does not await, run to the end with no other
  callback in between. A log that is \<^verbatim>\<open>null\<close> is \<^verbatim>\<open>None\<close>; a missing transaction hash
  is the empty string.
\<close>

definition onLog :: "world \<Rightarrow> log option \<Rightarrow> state \<Rightarrow> state" where
  "onLog w l s =
     (case l of
        None \<Rightarrow> s
      | Some lg \<Rightarrow>
          if transactionHash lg = [] then s
          else if CONFIRMATIONS w > 1 then
            (let s1 = emit GetBlockNumber s in
             case provider_getBlockNumber w (tick s) of
               Some latest \<Rightarrow>
                 if blockNumber lg + CONFIRMATIONS w - 1 > latest
                 then emit (SetTimeout 30000 (blockNumber lg)) s1
                 else handleLog w lg s1
             | None \<Rightarrow> handleLog w lg s1)
          else handleLog w lg s)"

section \<open>The polling variant\<close>

text \<open>
  The loop over the fetched logs. \<^verbatim>\<open>Inl\<close> is an exception that leaves the loop, with
  the state reached; \<^verbatim>\<open>handleLog\<close> catches its own.
\<close>

fun process_logs :: "world \<Rightarrow> log list \<Rightarrow> state \<Rightarrow> state + state" where
  "process_logs w [] s = Inr s"
| "process_logs w (lg # logs) s =
     (if CONFIRMATIONS w > 1 then
        (let s1 = emit GetBlockNumber s in
         case provider_getBlockNumber w (tick s) of
           None \<Rightarrow> Inl s1
         | Some latest \<Rightarrow>
             if blockNumber lg + CONFIRMATIONS w - 1 > latest
             then process_logs w logs s1
             else process_logs w logs (handleLog w lg s1))
      else process_logs w logs (handleLog w lg s))"

text \<open>
  The callback registered by \<^verbatim>\<open>startListening\<close> for each new block, run to the end
  with no other callback in between: first the body of its \<^verbatim>\<open>try\<close> block, then the
  callback with its \<^verbatim>\<open>catch\<close>.
\<close>

definition onBlock_try :: "world \<Rightarrow> int \<Rightarrow> state \<Rightarrow> state + state" where
  "onBlock_try w blockNum s =
     (let s0 = (if lastProcessedBlock s = 0 then s\<lparr>lastProcessedBlock := blockNum - 1\<rparr> else s);
          fromBlock = lastProcessedBlock s0 + 1;
          toBlock = blockNum
      in if toBlock < fromBlock then Inr s0
         else
           (let s1 = emit (GetLogs fromBlock toBlock) s0 in
            case provider_getLogs w (tick s0) fromBlock toBlock of
              None \<Rightarrow> Inl s1
            | Some logs \<Rightarrow>
                (case process_logs w logs s1 of
                   Inl s2 \<Rightarrow> Inl s2
                 | Inr s2 \<Rightarrow> Inr (s2\<lparr>lastProcessedBlock := blockNum\<rparr>))))"

definition onBlock :: "world \<Rightarrow> int \<Rightarrow> state \<Rightarrow> state" where
  "onBlock w blockNum s =
     (case onBlock_try w blockNum s of
        Inl s' \<Rightarrow> emit (ConsoleError ''Error while polling new blocks:'') s'
      | Inr s' \<Rightarrow> s')"

text \<open>
  A run of the polling variant over successive block notifications, each pass ending
  before the next notification arrives.
\<close>

fun run_blocks :: "world \<Rightarrow> int list \<Rightarrow> state \<Rightarrow> state" where
  "run_blocks w [] s = s"
| "run_blocks w (b # bs) s = run_blocks w bs (onBlock w b s)"

section \<open>Callbacks in steps\<close>

text \<open>
  A callback that has been started and is waiting: for the outcome of
  \<^verbatim>\<open>bot.sendMessage\<close> (with the log, the message and the time of the call), or for the
  answer of \<^verbatim>\<open>provider.getLogs\<close> (with the block notified, the first block of the range
  and the time of the call); or one that has ended.
\<close>

datatype task = Finished | AwaitSend log msg nat | AwaitLogs int int nat

text \<open>
  \<^verbatim>\<open>handleLog\<close> up to its call of \<^verbatim>\<open>bot.sendMessage\<close>; an exception thrown before that
  is caught and reported at once.
\<close>

definition handleLog_start :: "world \<Rightarrow> log \<Rightarrow> state \<Rightarrow> task \<times> state" where
  "handleLog_start w lg s =
     (if transactionHash lg \<in> set (lastSeenTx s) then (Finished, s)
      else
        (let s1 = emit (ParseLog lg) s in
         case parseLog w lg of
           None \<Rightarrow> (Finished, emit (ConsoleError ''Error handling log:'') s1)
         | Some parsed \<Rightarrow>
             (case classify (arg_from parsed) (arg_to parsed) of
                Ignored \<Rightarrow> (Finished, s1)
              | ty \<Rightarrow>
                  (case getAddress w (address lg) of
                     None \<Rightarrow> (Finished, emit (ConsoleError ''Error handling log:'') s1)
                   | Some tokenAddr \<Rightarrow>
                       (let (m, s3) = meta_or_placeholder w tokenAddr s1;
                            ms = message w ty m tokenAddr parsed lg
                        in (AwaitSend lg ms (tick s3), s3))))))"

text \<open>The callback of the subscription variant, up to the same point.\<close>

definition onLog_start :: "world \<Rightarrow> log option \<Rightarrow> state \<Rightarrow> task \<times> state" where
  "onLog_start w l s =
     (case l of
        None \<Rightarrow> (Finished, s)
      | Some lg \<Rightarrow>
          if transactionHash lg = [] then (Finished, s)
          else if CONFIRMATIONS w > 1 then
            (let s1 = emit GetBlockNumber s in
             case provider_getBlockNumber w (tick s) of
               Some latest \<Rightarrow>
                 if blockNumber lg + CONFIRMATIONS w - 1 > latest
                 then (Finished, emit (SetTimeout 30000 (blockNumber lg)) s1)
                 else handleLog_start w lg s1
             | None \<Rightarrow> handleLog_start w lg s1)
          else handleLog_start w lg s)"

text \<open>The callback of the polling variant up to its call of \<^verbatim>\<open>provider.getLogs\<close>.\<close>

definition onBlock_start :: "world \<Rightarrow> int \<Rightarrow> state \<Rightarrow> task \<times> state" where
  "onBlock_start w blockNum s =
     (let s0 = (if lastProcessedBlock s = 0 then s\<lparr>lastProcessedBlock := blockNum - 1\<rparr> else s);
          fromBlock = lastProcessedBlock s0 + 1;
          toBlock = blockNum
      in if toBlock < fromBlock then (Finished, s0)
         else (AwaitLogs blockNum fromBlock (tick s0), emit (GetLogs fromBlock toBlock) s0))"

text \<open>
  The call that a task waits for settles, and the task runs to its end: the lines
  after \<^verbatim>\<open>await bot.sendMessage\<close> in \<^verbatim>\<open>handleLog\<close>, or the lines after
  \<^verbatim>\<open>await provider.getLogs\<close> in the block callback.
\<close>

fun resume :: "world \<Rightarrow> task \<Rightarrow> state \<Rightarrow> task \<times> state" where
  "resume w Finished s = (Finished, s)"
| "resume w (AwaitSend lg ms t) s =
     (Finished,
      if bot_sendMessage w t ms
      then (emit (SendMessage ms True) s)
             \<lparr>lastSeenTx := record_seen (transactionHash lg) (lastSeenTx s)\<rparr>
      else emit (ConsoleError ''Error handling log:'') (emit (SendMessage ms False) s))"
| "resume w (AwaitLogs blockNum fromBlock t) s =
     (Finished,
      case provider_getLogs w t fromBlock blockNum of
        None \<Rightarrow> emit (ConsoleError ''Error while polling new blocks:'') s
      | Some logs \<Rightarrow>
          (case process_logs w logs s of
             Inl s2 \<Rightarrow> emit (ConsoleError ''Error while polling new blocks:'') s2
           | Inr s2 \<Rightarrow> s2\<lparr>lastProcessedBlock := blockNum\<rparr>))"

text \<open>
  What the event loop runs, one at a time: a log delivered to the subscription
  callback, a block notified to the polling callback, or the settling of the call that
  task number \<^verbatim>\<open>i\<close> waits for. Every list of events is an order in which the program
  can run.
\<close>

datatype event = LogEvent log | BlockEvent int | Settle nat

fun fire :: "world \<Rightarrow> event \<Rightarrow> task list \<times> state \<Rightarrow> task list \<times> state" where
  "fire w (LogEvent lg) (ts, s) = (case onLog_start w (Some lg) s of (t, s') \<Rightarrow> (ts @ [t], s'))"
| "fire w (BlockEvent b) (ts, s) = (case onBlock_start w b s of (t, s') \<Rightarrow> (ts @ [t], s'))"
| "fire w (Settle i) (ts, s) =
     (if i < length ts then (case resume w (ts ! i) s of (t, s') \<Rightarrow> (ts[i := t], s'))
      else (ts, s))"

definition run_events :: "world \<Rightarrow> event list \<Rightarrow> state \<Rightarrow> state" where
  "run_events w evs s = snd (foldl (\<lambda>c e. fire w e c) ([], s) evs)"

section \<open>A concrete world\<close>

text \<open>
  A small world on which the definitions can be run. Its decoder accepts a log of
  three topics whose first is the Transfer topic, takes sender and recipient from the
  last 40 digits of the other two and the amount from the hexadecimal data. Its
  addresses are written with digits only, so that the checksummed form of an address is
  the address itself; its token has 18 decimals, and amounts that are a whole number of
  tokens are the ones it formats. The chain and the channel answer every call.
\<close>

definition TRANSFER_TOPIC :: string where
  "TRANSFER_TOPIC = ''0xddf252ad1be2c89b69c2b068fc378daa952ba7f163c4a11628f55a4df523b3ef''"

definition hex_digit :: "char \<Rightarrow> nat" where
  "hex_digit c =
     (let n = (of_char c :: nat)
      in if 48 \<le> n \<and> n \<le> 57 then n - 48 else if 97 \<le> n \<and> n \<le> 102 then n - 87 else 0)"

definition hex_nat :: "string \<Rightarrow> nat" where
  "hex_nat str = foldl (\<lambda>acc c. 16 * acc + hex_digit c) 0 str"

definition demo_parse :: "log \<Rightarrow> transfer option" where
  "demo_parse lg =
     (case topics lg of
        [t0, sender, recipient] \<Rightarrow>
          if t0 = TRANSFER_TOPIC
          then Some \<lparr>arg_from = ''0x'' @ drop 26 sender, arg_to = ''0x'' @ drop 26 recipient,
                     arg_value = hex_nat (drop 2 (data lg))\<rparr>
          else None
      | _ \<Rightarrow> None)"

definition demo_getAddress :: "string \<Rightarrow> string option" where
  "demo_getAddress a = (if length a = 42 \<and> take 2 a = ''0x'' then Some a else None)"

definition demo_formatUnits :: "nat \<Rightarrow> nat \<Rightarrow> string option" where
  "demo_formatUnits v d = (if v mod 10 ^ d = 0 then Some (toString (v div 10 ^ d) @ ''.0'') else None)"

definition demo_world :: world where
  "demo_world =
     \<lparr>parseLog = demo_parse,
      getAddress = demo_getAddress,
      formatUnits = demo_formatUnits,
      contract_symbol = (\<lambda>t a. Some ''EURP''),
      contract_decimals = (\<lambda>t a. Some 18),
      bot_sendMessage = (\<lambda>t m. True),
      provider_getLogs = (\<lambda>t a b. Some []),
      provider_getBlockNumber = (\<lambda>t. Some 101),
      Date_now = (\<lambda>t. t),
      retry_minTimeout = 1000,
      CONFIRMATIONS = 1\<rparr>"

definition token_addr :: string where
  "token_addr = ''0x1111111111111111111111111111111111111111''"

definition alice :: string where
  "alice = ''0x2222222222222222222222222222222222222222''"

definition bob :: string where
  "bob = ''0x3333333333333333333333333333333333333333''"

definition topic_of :: "string \<Rightarrow> string" where
  "topic_of a = ''0x000000000000000000000000'' @ drop 2 a"

definition one_token :: string where
  "one_token = ''0x0000000000000000000000000000000000000000000000000de0b6b3a7640000''"

definition tx1 :: string where
  "tx1 = ''0x00000000000000000000000000000000000000000000000000000000000000a1''"

definition tx2 :: string where
  "tx2 = ''0x00000000000000000000000000000000000000000000000000000000000000a2''"

definition tx3 :: string where
  "tx3 = ''0x00000000000000000000000000000000000000000000000000000000000000a3''"

definition tx4 :: string where
  "tx4 = ''0x00000000000000000000000000000000000000000000000000000000000000a4''"

definition mint_log :: log where
  "mint_log = \<lparr>address = token_addr, topics = [TRANSFER_TOPIC, topic_of ZERO, topic_of alice],
               data = one_token, transactionHash = tx1, blockNumber = 100\<rparr>"

definition zero_zero_log :: log where
  "zero_zero_log = \<lparr>address = token_addr, topics = [TRANSFER_TOPIC, topic_of ZERO, topic_of ZERO],
               data = one_token, transactionHash = tx2, blockNumber = 100\<rparr>"

definition seen_state :: state where
  "seen_state = initial\<lparr>lastSeenTx := [tx1]\<rparr>"

definition deaf_channel :: world where
  "deaf_channel = demo_world\<lparr>bot_sendMessage := (\<lambda>t m. False)\<rparr>"

definition mint_msg :: msg where
  "mint_msg = \<lparr>m_type = Mint, m_symbol = ''EURP'', m_tokenAddr = token_addr, m_from = ZERO,
     m_to = alice, m_amount = ''1.0'', m_tx = tx1, m_link = txLink tx1, m_block = 100\<rparr>"

definition burn_log :: log where
  "burn_log = \<lparr>address = token_addr, topics = [TRANSFER_TOPIC, topic_of alice, topic_of ZERO],
               data = one_token, transactionHash = tx1, blockNumber = 100\<rparr>"

definition plain_log :: log where
  "plain_log = \<lparr>address = token_addr, topics = [TRANSFER_TOPIC, topic_of alice, topic_of bob],
               data = one_token, transactionHash = tx3, blockNumber = 100\<rparr>"

definition mute_symbol :: world where
  "mute_symbol = demo_world\<lparr>contract_symbol := (\<lambda>t a. None)\<rparr>"

definition mute_decimals :: world where
  "mute_decimals = demo_world\<lparr>contract_decimals := (\<lambda>t a. None)\<rparr>"

definition flaky_symbol :: world where
  "flaky_symbol = demo_world\<lparr>contract_symbol := (\<lambda>t a. if t < 4 then None else Some ''EURP'')\<rparr>"

definition later_mint_log :: log where
  "later_mint_log = \<lparr>address = token_addr, topics = [TRANSFER_TOPIC, topic_of ZERO, topic_of bob],
               data = one_token, transactionHash = tx4, blockNumber = 101\<rparr>"

definition offline :: world where
  "offline = demo_world\<lparr>provider_getLogs := (\<lambda>t a b. None)\<rparr>"

definition started :: state where
  "started = initial\<lparr>lastProcessedBlock := 100\<rparr>"

definition headless :: world where
  "headless = demo_world\<lparr>provider_getLogs := (\<lambda>t a b. Some [mint_log]),
     provider_getBlockNumber := (\<lambda>t. None), CONFIRMATIONS := 3\<rparr>"

definition gated :: world where
  "gated = demo_world\<lparr>
     provider_getLogs := (\<lambda>t a b. Some (if a \<le> 100 \<and> 100 \<le> b then [mint_log] else [])),
     provider_getBlockNumber := (\<lambda>t. Some (if t < 2 then 101 else 102)),
     CONFIRMATIONS := 3\<rparr>"

definition burn_msg :: msg where
  "burn_msg = \<lparr>m_type = Burn, m_symbol = ''EURP'', m_tokenAddr = token_addr, m_from = alice,
     m_to = ZERO, m_amount = ''1.0'', m_tx = tx1, m_link = txLink tx1, m_block = 100\<rparr>"

definition two_logs :: world where
  "two_logs = demo_world\<lparr>provider_getLogs := (\<lambda>t a b. Some [mint_log, burn_log])\<rparr>"

definition flaky_head :: world where
  "flaky_head = demo_world\<lparr>
     provider_getLogs := (\<lambda>t a b. Some (if a \<le> 100 \<and> 100 \<le> b then [mint_log] else [])),
     provider_getBlockNumber := (\<lambda>t. if t < 2 then None else Some 101),
     CONFIRMATIONS := 3\<rparr>"

section \<open>Kinds of effects\<close>

fun meta_effect :: "effect \<Rightarrow> bool" where
  "meta_effect (CallSymbol a) = True"
| "meta_effect (CallDecimals a) = True"
| "meta_effect (Backoff d) = True"
| "meta_effect e = False"

text \<open>The later state is the earlier one with effects of one kind appended.\<close>

definition appends :: "(effect \<Rightarrow> bool) \<Rightarrow> state \<Rightarrow> state \<Rightarrow> bool" where
  "appends P s s' = (\<exists>es. s' = s\<lparr>trace := trace s @ es\<rparr> \<and> list_all P es)"

text \<open>Effects that are neither a message, nor decoding, nor a log query.\<close>

fun quiet :: "effect \<Rightarrow> bool" where
  "quiet (SendMessage m ok) = False"
| "quiet (ParseLog l) = False"
| "quiet (GetLogs a b) = False"
| "quiet e = True"

text \<open>The later state has the same deduplication set and cursor, and more effects.\<close>

definition grows :: "(effect \<Rightarrow> bool) \<Rightarrow> state \<Rightarrow> state \<Rightarrow> bool" where
  "grows P s s' =
     (lastSeenTx s' = lastSeenTx s \<and> lastProcessedBlock s' = lastProcessedBlock s \<and>
      (\<exists>es. trace s' = trace s @ es \<and> list_all P es))"

text \<open>The log queries among the effects.\<close>

fun is_query :: "effect \<Rightarrow> bool" where
  "is_query (GetLogs a b) = True"
| "is_query e = False"

text \<open>The state in which a \<^verbatim>\<open>try\<close> block ends, either way.\<close>

definition reached :: "state + state \<Rightarrow> state" where
  "reached r = (case r of Inl s \<Rightarrow> s | Inr s \<Rightarrow> s)"

text \<open>The later state has the same cursor, and more effects, none of them a log query.\<close>

definition steady :: "state \<Rightarrow> state \<Rightarrow> bool" where
  "steady s s' =
     (lastProcessedBlock s' = lastProcessedBlock s \<and>
      (\<exists>es. trace s' = trace s @ es \<and> filter is_query es = []))"

text \<open>The start of the range that onBlock computes.\<close>

definition range_start :: "state \<Rightarrow> int \<Rightarrow> int" where
  "range_start s blockNum = (if lastProcessedBlock s = 0 then blockNum else lastProcessedBlock s + 1)"

section \<open>Basic facts\<close>

lemmas demo_defs = demo_world_def demo_parse_def mint_log_def zero_zero_log_def initial_def
  TRANSFER_TOPIC_def hex_digit_def hex_nat_def demo_getAddress_def demo_formatUnits_def
  token_addr_def alice_def bob_def topic_of_def one_token_def tx1_def tx2_def tx3_def tx4_def
  toString.simps digit_char_def
  handleLog_def handleLog_try_def meta_or_placeholder_def getTokenMeta_def pRetry_def
  call_symbol_def call_decimals_def message_def formatAmount_def txLink_def classify_def
  toLowerCase_def lower_char_def ZERO_def emit_def tick_def record_seen_def set_add_def
  new_effects_def placeholder_def Let_def
  seen_state_def deaf_channel_def mint_msg_def burn_log_def plain_log_def
  mute_symbol_def mute_decimals_def flaky_symbol_def later_mint_log_def
  onBlock_def onBlock_try_def onLog_def offline_def started_def headless_def gated_def
  handleLog_start_def onLog_start_def onBlock_start_def run_events_def burn_msg_def flaky_head_def two_logs_def

lemma trace_emit [simp]: "trace (emit e s) = trace s @ [e]" by (simp add: emit_def)
lemma tokenCache_emit [simp]: "tokenCache (emit e s) = tokenCache s" by (simp add: emit_def)
lemma lastSeenTx_emit [simp]: "lastSeenTx (emit e s) = lastSeenTx s" by (simp add: emit_def)
lemma lastProcessedBlock_emit [simp]: "lastProcessedBlock (emit e s) = lastProcessedBlock s" by (simp add: emit_def)
lemma tick_emit [simp]: "tick (emit e s) = Suc (tick s)" by (simp add: tick_def)

lemma appends_refl: "appends P s s"
  unfolding appends_def by (rule exI [of _ "[]"]) simp

lemma appends_emit: "P e \<Longrightarrow> appends P s (emit e s)"
  unfolding appends_def by (rule exI [of _ "[e]"]) (simp add: emit_def)

lemma appends_trans: "appends P s s' \<Longrightarrow> appends P s' s'' \<Longrightarrow> appends P s s''"
  unfolding appends_def
proof -
  assume "\<exists>es. s' = s\<lparr>trace := trace s @ es\<rparr> \<and> list_all P es"
    and "\<exists>es. s'' = s'\<lparr>trace := trace s' @ es\<rparr> \<and> list_all P es"
  then obtain es1 es2 where a: "s' = s\<lparr>trace := trace s @ es1\<rparr>" "list_all P es1"
    and b: "s'' = s'\<lparr>trace := trace s' @ es2\<rparr>" "list_all P es2" by blast
  have "s'' = s\<lparr>trace := trace s @ (es1 @ es2)\<rparr> \<and> list_all P (es1 @ es2)"
    using a b by simp
  then show "\<exists>es. s'' = s\<lparr>trace := trace s @ es\<rparr> \<and> list_all P es" by blast
qed

lemma appends_mono: "appends P s s' \<Longrightarrow> (\<And>e. P e \<Longrightarrow> Q e) \<Longrightarrow> appends Q s s'"
  unfolding appends_def by (auto simp: list_all_iff)

lemma appends_fields:
  assumes "appends P s s'"
  shows "tokenCache s' = tokenCache s" "lastSeenTx s' = lastSeenTx s"
    "lastProcessedBlock s' = lastProcessedBlock s"
    "\<exists>es. trace s' = trace s @ es \<and> list_all P es"
  using assms unfolding appends_def by auto

lemma pRetry_loop_appends:
  assumes run: "\<And>s. appends P s (snd (run s))" and b: "\<And>d. P (Backoff d)"
  shows "appends P s (snd (pRetry_loop n k b0 f run s))"
proof (induction n arbitrary: k s)
  case 0
  show ?case by (simp add: run)
next
  case (Suc n)
  show ?case
  proof (cases "run s")
    case (Pair r s')
    have s': "appends P s s'" using run [of s] Pair by simp
    show ?thesis
    proof (cases r)
      case None
      have "appends P s' (emit (Backoff (b0 * f ^ k)) s')" by (rule appends_emit) (rule b)
      from appends_trans [OF s' this]
      have "appends P s (emit (Backoff (b0 * f ^ k)) s')" .
      moreover have "appends P (emit (Backoff (b0 * f ^ k)) s')
          (snd (pRetry_loop n (Suc k) b0 f run (emit (Backoff (b0 * f ^ k)) s')))"
        by (rule Suc.IH)
      ultimately show ?thesis using Pair None by (simp add: appends_trans)
    next
      case (Some v)
      then show ?thesis using Pair s' by simp
    qed
  qed
qed

lemma call_symbol_appends: "appends meta_effect s (snd (call_symbol w a s))"
  by (simp add: call_symbol_def appends_emit)

lemma call_decimals_appends: "appends meta_effect s (snd (call_decimals w a s))"
  by (simp add: call_decimals_def appends_emit)

lemma pRetry_symbol_appends: "appends meta_effect s (snd (pRetry (retry_minTimeout w) (call_symbol w a) opts s))"
  unfolding pRetry_def by (rule pRetry_loop_appends) (simp_all add: call_symbol_appends)

lemma pRetry_decimals_appends: "appends meta_effect s (snd (pRetry (retry_minTimeout w) (call_decimals w a) opts s))"
  unfolding pRetry_def by (rule pRetry_loop_appends) (simp_all add: call_decimals_appends)

text \<open>getTokenMeta: a failure leaves everything but the trace as it was.\<close>

lemma getTokenMeta_None:
  assumes "getTokenMeta w addr s = (None, s')"
  shows "appends meta_effect s s'"
proof (cases "getAddress w addr")
  case None
  then show ?thesis using assms by (simp add: getTokenMeta_def appends_refl)
next
  case (Some a)
  show ?thesis
  proof (cases "tokenCache s a")
    case (Some m)
    then show ?thesis using assms \<open>getAddress w addr = Some a\<close> by (simp add: getTokenMeta_def)
  next
    case None
    obtain r1 s1 where p1: "pRetry (retry_minTimeout w) (call_symbol w a) \<lparr>retries = 2, factor = 3 / 2\<rparr> s = (r1, s1)"
      by (cases "pRetry (retry_minTimeout w) (call_symbol w a) \<lparr>retries = 2, factor = 3 / 2\<rparr> s") auto
    have a1: "appends meta_effect s s1"
      using pRetry_symbol_appends [of s w a "\<lparr>retries = 2, factor = 3 / 2\<rparr>"] p1 by simp
    obtain r2 s2 where p2: "pRetry (retry_minTimeout w) (call_decimals w a) \<lparr>retries = 2, factor = 3 / 2\<rparr> s1 = (r2, s2)"
      by (cases "pRetry (retry_minTimeout w) (call_decimals w a) \<lparr>retries = 2, factor = 3 / 2\<rparr> s1") auto
    have a2: "appends meta_effect s1 s2"
      using pRetry_decimals_appends [of s1 w a "\<lparr>retries = 2, factor = 3 / 2\<rparr>"] p2 by simp
    show ?thesis
      using assms \<open>getAddress w addr = Some a\<close> None p1 p2 a1 appends_trans [OF a1 a2]
      by (auto simp: getTokenMeta_def Let_def split: option.splits)
  qed
qed

lemma getTokenMeta_Some:
  assumes "getTokenMeta w addr s = (Some m, s')"
  shows "\<exists>s2. appends meta_effect s s2 \<and> (s' = s2 \<or> (\<exists>a. getAddress w addr = Some a \<and> s' = s2\<lparr>tokenCache := (tokenCache s2)(a \<mapsto> m)\<rparr>))"
proof (cases "getAddress w addr")
  case None
  then show ?thesis using assms by (simp add: getTokenMeta_def appends_refl)
next
  case (Some a)
  show ?thesis
  proof (cases "tokenCache s a")
    case (Some m')
    then show ?thesis using assms \<open>getAddress w addr = Some a\<close> appends_refl [of meta_effect s]
      by (auto simp add: getTokenMeta_def)
  next
    case None
    obtain r1 s1 where p1: "pRetry (retry_minTimeout w) (call_symbol w a) \<lparr>retries = 2, factor = 3 / 2\<rparr> s = (r1, s1)"
      by (cases "pRetry (retry_minTimeout w) (call_symbol w a) \<lparr>retries = 2, factor = 3 / 2\<rparr> s") auto
    have a1: "appends meta_effect s s1"
      using pRetry_symbol_appends [of s w a "\<lparr>retries = 2, factor = 3 / 2\<rparr>"] p1 by simp
    obtain r2 s2 where p2: "pRetry (retry_minTimeout w) (call_decimals w a) \<lparr>retries = 2, factor = 3 / 2\<rparr> s1 = (r2, s2)"
      by (cases "pRetry (retry_minTimeout w) (call_decimals w a) \<lparr>retries = 2, factor = 3 / 2\<rparr> s1") auto
    have a2: "appends meta_effect s1 s2"
      using pRetry_decimals_appends [of s1 w a "\<lparr>retries = 2, factor = 3 / 2\<rparr>"] p2 by simp
    show ?thesis
      using assms \<open>getAddress w addr = Some a\<close> None p1 p2 appends_trans [OF a1 a2]
      by (auto simp: getTokenMeta_def Let_def split: option.splits)
  qed
qed

section \<open>What handleLog does\<close>

lemma appends_grows: "appends P s s' \<Longrightarrow> grows P s s'"
  unfolding appends_def grows_def by auto

lemma meta_effect_quiet: "meta_effect e \<Longrightarrow> quiet e"
  by (cases e) simp_all

lemma getTokenMeta_grows: "getTokenMeta w addr s = (r, s') \<Longrightarrow> grows meta_effect s s'"
proof (cases r)
  case None
  assume "getTokenMeta w addr s = (r, s')"
  with None show ?thesis by (simp add: getTokenMeta_None appends_grows)
next
  case (Some m)
  assume "getTokenMeta w addr s = (r, s')"
  with Some obtain s2 where a: "appends meta_effect s s2"
    and b: "s' = s2 \<or> (\<exists>a. getAddress w addr = Some a \<and> s' = s2\<lparr>tokenCache := (tokenCache s2)(a \<mapsto> m)\<rparr>)"
    using getTokenMeta_Some by blast
  from appends_grows [OF a] b show ?thesis unfolding grows_def by auto
qed

lemma meta_or_placeholder_grows:
  "meta_or_placeholder w a s = (m, s') \<Longrightarrow> grows quiet s s'"
proof -
  assume h: "meta_or_placeholder w a s = (m, s')"
  obtain r s2 where g: "getTokenMeta w a s = (r, s2)" by (cases "getTokenMeta w a s") auto
  from getTokenMeta_grows [OF g] have "grows meta_effect s s2" .
  then have g2: "grows quiet s s2" unfolding grows_def by (auto simp: list_all_iff meta_effect_quiet)
  show ?thesis
  proof (cases r)
    case None
    with h g have "s' = emit (ConsoleWarn a) s2" by (simp add: meta_or_placeholder_def)
    with g2 show ?thesis unfolding grows_def by auto
  next
    case (Some m')
    with h g have "s' = s2" by (simp add: meta_or_placeholder_def)
    with g2 show ?thesis by simp
  qed
qed

lemma handleLog_seen: "transactionHash lg \<in> set (lastSeenTx s) \<Longrightarrow> handleLog w lg s = s"
  by (simp add: handleLog_def handleLog_try_def)

lemma handleLog_try_parse_fails:
  "transactionHash lg \<notin> set (lastSeenTx s) \<Longrightarrow> parseLog w lg = None \<Longrightarrow>
   handleLog_try w lg s = Inl (emit (ParseLog lg) s)"
  by (simp add: handleLog_try_def)

lemma handleLog_try_ignored:
  "transactionHash lg \<notin> set (lastSeenTx s) \<Longrightarrow> parseLog w lg = Some p \<Longrightarrow>
   classify (arg_from p) (arg_to p) = Ignored \<Longrightarrow>
   handleLog_try w lg s = Inr (emit (ParseLog lg) s)"
  by (simp add: handleLog_try_def)

lemma handleLog_try_bad_address:
  "transactionHash lg \<notin> set (lastSeenTx s) \<Longrightarrow> parseLog w lg = Some p \<Longrightarrow>
   classify (arg_from p) (arg_to p) \<noteq> Ignored \<Longrightarrow> getAddress w (address lg) = None \<Longrightarrow>
   handleLog_try w lg s = Inl (emit (ParseLog lg) s)"
  by (cases "classify (arg_from p) (arg_to p)") (simp_all add: handleLog_try_def)

lemma handleLog_try_qualifying:
  "transactionHash lg \<notin> set (lastSeenTx s) \<Longrightarrow> parseLog w lg = Some p \<Longrightarrow>
   classify (arg_from p) (arg_to p) \<noteq> Ignored \<Longrightarrow> getAddress w (address lg) = Some a \<Longrightarrow>
   meta_or_placeholder w a (emit (ParseLog lg) s) = (m, s3) \<Longrightarrow>
   handleLog_try w lg s =
     (if bot_sendMessage w (tick s3) (message w (classify (arg_from p) (arg_to p)) m a p lg)
      then Inr ((emit (SendMessage (message w (classify (arg_from p) (arg_to p)) m a p lg) True) s3)
             \<lparr>lastSeenTx := record_seen (transactionHash lg) (lastSeenTx s3)\<rparr>)
      else Inl (emit (SendMessage (message w (classify (arg_from p) (arg_to p)) m a p lg) False) s3))"
  by (cases "classify (arg_from p) (arg_to p)") (simp_all add: handleLog_try_def)

text \<open>The shape of what handleLog does for a transaction not yet seen.\<close>

lemma handleLog_shape:
  assumes unseen: "transactionHash lg \<notin> set (lastSeenTx s)"
  shows "\<exists>es. list_all quiet es \<and> lastProcessedBlock (handleLog w lg s) = lastProcessedBlock s \<and>
     ((trace (handleLog w lg s) = trace s @ ParseLog lg # es \<and>
         lastSeenTx (handleLog w lg s) = lastSeenTx s)
    \<or> (\<exists>ms. trace (handleLog w lg s) = trace s @ ParseLog lg # es @ [SendMessage ms True] \<and>
         m_tx ms = transactionHash lg \<and>
         lastSeenTx (handleLog w lg s) = record_seen (transactionHash lg) (lastSeenTx s))
    \<or> (\<exists>ms. trace (handleLog w lg s) =
           trace s @ ParseLog lg # es @ [SendMessage ms False, ConsoleError ''Error handling log:''] \<and>
         lastSeenTx (handleLog w lg s) = lastSeenTx s))"
proof (cases "parseLog w lg")
  case None
  then have "trace (handleLog w lg s) = trace s @ ParseLog lg # [ConsoleError ''Error handling log:'']"
    and "lastSeenTx (handleLog w lg s) = lastSeenTx s"
    and "lastProcessedBlock (handleLog w lg s) = lastProcessedBlock s"
    using unseen by (simp_all add: handleLog_def handleLog_try_parse_fails)
  then show ?thesis by (intro exI [of _ "[ConsoleError ''Error handling log:'']"]) simp
next
  case (Some p)
  show ?thesis
  proof (cases "classify (arg_from p) (arg_to p) = Ignored")
    case True
    then have "trace (handleLog w lg s) = trace s @ ParseLog lg # []"
      and "lastSeenTx (handleLog w lg s) = lastSeenTx s"
      and "lastProcessedBlock (handleLog w lg s) = lastProcessedBlock s"
      using unseen Some by (simp_all add: handleLog_def handleLog_try_ignored)
    then show ?thesis by (intro exI [of _ "[]"]) simp
  next
    case False
    show ?thesis
    proof (cases "getAddress w (address lg)")
      case None
      then have "trace (handleLog w lg s) = trace s @ ParseLog lg # [ConsoleError ''Error handling log:'']"
        and "lastSeenTx (handleLog w lg s) = lastSeenTx s"
        and "lastProcessedBlock (handleLog w lg s) = lastProcessedBlock s"
        using unseen Some False
        by (simp_all add: handleLog_def handleLog_try_bad_address)
      then show ?thesis by (intro exI [of _ "[ConsoleError ''Error handling log:'']"]) simp
    next
      case (Some a)
      obtain m s3 where mp: "meta_or_placeholder w a (emit (ParseLog lg) s) = (m, s3)"
        by (cases "meta_or_placeholder w a (emit (ParseLog lg) s)") auto
      from meta_or_placeholder_grows [OF mp] obtain es where
        es: "trace s3 = trace s @ ParseLog lg # es" "list_all quiet es"
        and f: "lastSeenTx s3 = lastSeenTx s" "lastProcessedBlock s3 = lastProcessedBlock s"
        unfolding grows_def by auto
      let ?ms = "message w (classify (arg_from p) (arg_to p)) m a p lg"
      have tx: "m_tx ?ms = transactionHash lg" by (simp add: message_def Let_def)
      show ?thesis
      proof (cases "bot_sendMessage w (tick s3) ?ms")
        case True
        then have "handleLog w lg s = (emit (SendMessage ?ms True) s3)
                     \<lparr>lastSeenTx := record_seen (transactionHash lg) (lastSeenTx s3)\<rparr>"
          using unseen \<open>parseLog w lg = Some p\<close> False Some mp
          by (simp add: handleLog_def handleLog_try_qualifying)
        then have "trace (handleLog w lg s) = trace s @ ParseLog lg # es @ [SendMessage ?ms True]"
          and "lastSeenTx (handleLog w lg s) = record_seen (transactionHash lg) (lastSeenTx s)"
          and "lastProcessedBlock (handleLog w lg s) = lastProcessedBlock s"
          using es f by simp_all
        with tx es(2) show ?thesis by blast
      next
        case False
        then have "handleLog w lg s =
            emit (ConsoleError ''Error handling log:'') (emit (SendMessage ?ms False) s3)"
          using unseen \<open>parseLog w lg = Some p\<close> \<open>classify (arg_from p) (arg_to p) \<noteq> Ignored\<close> Some mp
          by (simp add: handleLog_def handleLog_try_qualifying)
        then have "trace (handleLog w lg s) =
            trace s @ ParseLog lg # es @ [SendMessage ?ms False, ConsoleError ''Error handling log:'']"
          and "lastSeenTx (handleLog w lg s) = lastSeenTx s"
          and "lastProcessedBlock (handleLog w lg s) = lastProcessedBlock s"
          using es f by simp_all
        with es(2) show ?thesis by blast
      qed
    qed
  qed
qed

section \<open>The deduplication set\<close>

lemma length_record_seen: "length seen \<le> 1000 \<Longrightarrow> length (record_seen tx seen) \<le> 1000"
  by (auto simp add: record_seen_def set_add_def Let_def)

lemma record_seen_evicts:
  "1000 < length (set_add tx seen) \<Longrightarrow> record_seen tx seen = drop 200 (set_add tx seen)"
  by (simp add: record_seen_def Let_def)

lemma record_seen_keeps_new: "tx \<notin> set seen \<Longrightarrow> tx \<in> set (record_seen tx seen)"
  by (simp add: record_seen_def set_add_def Let_def)

lemma fold_record_seen_fresh:
  "distinct xs \<Longrightarrow> set xs \<inter> set ys = {} \<Longrightarrow> length (ys @ xs) \<le> 1000 \<Longrightarrow>
   fold record_seen xs ys = ys @ xs"
proof (induction xs arbitrary: ys)
  case Nil
  then show ?case by simp
next
  case (Cons x xs)
  have "record_seen x ys = ys @ [x]" using Cons.prems by (simp add: record_seen_def set_add_def Let_def)
  moreover have "fold record_seen xs (ys @ [x]) = (ys @ [x]) @ xs"
    using Cons.prems by (intro Cons.IH) auto
  ultimately show ?case by simp
qed

lemma fold_record_seen_1001:
  assumes d: "distinct xs" and l: "length xs = 1001"
  shows "fold record_seen xs [] = drop 200 xs"
proof -
  obtain as b where xs: "xs = as @ [b]" using l by (cases xs rule: rev_cases) auto
  have "fold record_seen as [] = [] @ as" using d l xs by (intro fold_record_seen_fresh) auto
  then have "fold record_seen xs [] = record_seen b as" using xs by simp
  also have "\<dots> = drop 200 (as @ [b])"
    using d l xs by (simp add: record_seen_def set_add_def Let_def)
  finally show ?thesis using xs by simp
qed


lemma handleLog_keeps_bound:
  assumes b: "length (lastSeenTx s) \<le> 1000"
  shows "length (lastSeenTx (handleLog w lg s)) \<le> 1000"
proof (cases "transactionHash lg \<in> set (lastSeenTx s)")
  case True
  then show ?thesis using b by (simp add: handleLog_seen)
next
  case False
  from handleLog_shape [OF False, of w]
  have "lastSeenTx (handleLog w lg s) = lastSeenTx s \<or>
        lastSeenTx (handleLog w lg s) = record_seen (transactionHash lg) (lastSeenTx s)"
    by blast
  then show ?thesis using b length_record_seen [OF b] by auto
qed

text \<open>
  Claim C5. The deduplication set never holds more than 1000 entries after a record
  operation: starting from the empty set, whatever logs are handled; an insertion that
  makes the size exceed 1000 is followed by the eviction of the 200 oldest entries; and
  after the insertion of 1001 distinct identifiers one after the other the set holds at
  most 1000 entries, none of them among the 200 inserted first.
\<close>

theorem dedup_bound:
  "length (lastSeenTx (fold (handleLog w) lgs initial)) \<le> 1000 \<and>
   (length (lastSeenTx s) \<le> 1000 \<longrightarrow> length (lastSeenTx (handleLog w lg s)) \<le> 1000) \<and>
   (length seen \<le> 1000 \<longrightarrow> length (record_seen tx seen) \<le> 1000) \<and>
   (1000 < length (set_add tx seen) \<longrightarrow> record_seen tx seen = drop 200 (set_add tx seen)) \<and>
   (distinct xs \<and> length xs = 1001 \<longrightarrow>
      length (fold record_seen xs []) \<le> 1000 \<and>
      set (take 200 xs) \<inter> set (fold record_seen xs []) = {} \<and>
      fold record_seen xs [] = drop 200 xs)"
proof (intro conjI impI)
  have "length (lastSeenTx s0) \<le> 1000 \<Longrightarrow>
        length (lastSeenTx (fold (handleLog w) lgs s0)) \<le> 1000" for s0
    by (induction lgs arbitrary: s0) (simp_all add: handleLog_keeps_bound)
  then show "length (lastSeenTx (fold (handleLog w) lgs initial)) \<le> 1000"
    by (simp add: initial_def)
next
  assume "length (lastSeenTx s) \<le> 1000"
  then show "length (lastSeenTx (handleLog w lg s)) \<le> 1000" by (rule handleLog_keeps_bound)
next
  assume "length seen \<le> 1000"
  then show "length (record_seen tx seen) \<le> 1000" by (rule length_record_seen)
next
  assume "1000 < length (set_add tx seen)"
  then show "record_seen tx seen = drop 200 (set_add tx seen)" by (rule record_seen_evicts)
next
  assume h: "distinct xs \<and> length xs = 1001"
  then have e: "fold record_seen xs [] = drop 200 xs" by (simp add: fold_record_seen_1001)
  show "fold record_seen xs [] = drop 200 xs" by (rule e)
  show "length (fold record_seen xs []) \<le> 1000" using e h by simp
  have "distinct (take 200 xs @ drop 200 xs)" using h by simp
  then show "set (take 200 xs) \<inter> set (fold record_seen xs []) = {}"
    unfolding e by (simp only: distinct_append) 
qed

theorem dedup_bound_witness:
  "length (lastSeenTx initial) \<le> 1000 \<and>
   length (lastSeenTx (handleLog demo_world mint_log initial)) \<le> 1000 \<and>
   length ([] :: nat list) \<le> 1000 \<and> length (record_seen (7 :: nat) []) \<le> 1000 \<and>
   1000 < length (set_add (1000 :: nat) [0..<1000]) \<and>
   record_seen (1000 :: nat) [0..<1000] = drop 200 (set_add 1000 [0..<1000]) \<and>
   distinct [0..<1001 :: nat] \<and> length [0..<1001 :: nat] = 1001 \<and>
   length (fold record_seen [0..<1001 :: nat] []) \<le> 1000 \<and>
   set (take 200 [0..<1001 :: nat]) \<inter> set (fold record_seen [0..<1001 :: nat] []) = {} \<and>
   fold record_seen [0..<1001 :: nat] [] = drop 200 [0..<1001]"
proof -
  have h1: "length (lastSeenTx initial) \<le> 1000" by (simp add: initial_def)
  have h2: "length ([] :: nat list) \<le> 1000" by simp
  have h3: "1000 < length (set_add (1000 :: nat) [0..<1000])" by (simp add: set_add_def)
  have h4: "distinct [0..<1001 :: nat] \<and> length [0..<1001 :: nat] = 1001" by simp
  from h1 h2 h3 h4 dedup_bound [of demo_world "[]" initial mint_log "[]" "7 :: nat" "[0..<1001]"]
    dedup_bound [of demo_world "[]" initial mint_log "[0..<1000]" "1000 :: nat" "[0..<1001]"]
  show ?thesis by blast
qed

section \<open>Deduplication in handleLog\<close>

lemma new_effects_append: "trace s' = trace s @ es \<Longrightarrow> new_effects s s' = es"
  by (simp add: new_effects_def)

lemma new_effects_same [simp]: "new_effects s s = []"
  by (simp add: new_effects_def)

text \<open>The three outcomes of handleLog on a transaction not yet seen, by new effects.\<close>

lemma handleLog_outcomes:
  assumes unseen: "transactionHash lg \<notin> set (lastSeenTx s)"
  shows "\<exists>es. list_all quiet es \<and>
     ((new_effects s (handleLog w lg s) = ParseLog lg # es \<and>
         lastSeenTx (handleLog w lg s) = lastSeenTx s)
    \<or> (\<exists>ms. new_effects s (handleLog w lg s) = ParseLog lg # es @ [SendMessage ms True] \<and>
         m_tx ms = transactionHash lg \<and>
         lastSeenTx (handleLog w lg s) = record_seen (transactionHash lg) (lastSeenTx s))
    \<or> (\<exists>ms. new_effects s (handleLog w lg s) =
           ParseLog lg # es @ [SendMessage ms False, ConsoleError ''Error handling log:''] \<and>
         lastSeenTx (handleLog w lg s) = lastSeenTx s))"
proof -
  from handleLog_shape [OF unseen, of w] obtain es where q: "list_all quiet es" and
    c: "(trace (handleLog w lg s) = trace s @ ParseLog lg # es \<and>
         lastSeenTx (handleLog w lg s) = lastSeenTx s)
    \<or> (\<exists>ms. trace (handleLog w lg s) = trace s @ ParseLog lg # es @ [SendMessage ms True] \<and>
         m_tx ms = transactionHash lg \<and>
         lastSeenTx (handleLog w lg s) = record_seen (transactionHash lg) (lastSeenTx s))
    \<or> (\<exists>ms. trace (handleLog w lg s) =
           trace s @ ParseLog lg # es @ [SendMessage ms False, ConsoleError ''Error handling log:''] \<and>
         lastSeenTx (handleLog w lg s) = lastSeenTx s)" by blast
  from c show ?thesis
  proof (elim disjE conjE exE)
    assume "trace (handleLog w lg s) = trace s @ ParseLog lg # es"
      and "lastSeenTx (handleLog w lg s) = lastSeenTx s"
    then show ?thesis using q new_effects_append by blast
  next
    fix ms
    assume "trace (handleLog w lg s) = trace s @ ParseLog lg # es @ [SendMessage ms True]"
      and "m_tx ms = transactionHash lg"
      and "lastSeenTx (handleLog w lg s) = record_seen (transactionHash lg) (lastSeenTx s)"
    then show ?thesis using q new_effects_append by blast
  next
    fix ms
    assume "trace (handleLog w lg s) =
           trace s @ ParseLog lg # es @ [SendMessage ms False, ConsoleError ''Error handling log:'']"
      and "lastSeenTx (handleLog w lg s) = lastSeenTx s"
    then show ?thesis using q new_effects_append by blast
  qed
qed

lemma quiet_no_send: "list_all quiet es \<Longrightarrow> SendMessage ms ok \<notin> set es"
  by (auto simp: list_all_iff)

lemma handleLog_first_effect:
  "transactionHash lg \<notin> set (lastSeenTx s) \<Longrightarrow>
   take 1 (new_effects s (handleLog w lg s)) = [ParseLog lg]"
  using handleLog_outcomes [of lg s w] by auto

lemma handleLog_recorded:
  assumes "transactionHash lg \<notin> set (lastSeenTx s)"
    and "transactionHash lg \<in> set (lastSeenTx (handleLog w lg s))"
  shows "\<exists>ms. last (new_effects s (handleLog w lg s)) = SendMessage ms True \<and>
           m_tx ms = transactionHash lg"
  using handleLog_outcomes [OF assms(1), of w] assms by auto

lemma handleLog_failed_send:
  assumes "SendMessage ms False \<in> set (new_effects s (handleLog w lg s))"
  shows "lastSeenTx (handleLog w lg s) = lastSeenTx s \<and> transactionHash lg \<notin> set (lastSeenTx s)"
proof (cases "transactionHash lg \<in> set (lastSeenTx s)")
  case True
  then show ?thesis using assms by (simp add: handleLog_seen)
next
  case False
  from handleLog_outcomes [OF False, of w] assms show ?thesis
    using False by (auto dest: quiet_no_send)
qed

lemma handleLog_dispatched:
  assumes "SendMessage ms True \<in> set (new_effects s (handleLog w lg s))"
  shows "transactionHash lg \<in> set (lastSeenTx (handleLog w lg s)) \<and>
         transactionHash lg \<notin> set (lastSeenTx s)"
proof (cases "transactionHash lg \<in> set (lastSeenTx s)")
  case True
  then show ?thesis using assms by (simp add: handleLog_seen)
next
  case False
  from handleLog_outcomes [OF False, of w] assms show ?thesis
    using False by (auto dest: quiet_no_send simp: record_seen_keeps_new)
qed

text \<open>
  Claim C4. For every log: the transaction hash is looked up in the deduplication set
  before anything else, and a log whose transaction is in the set is skipped with no
  decoding and no other effect; for a transaction that is not in the set decoding is
  the first thing done; the hash enters the set only when the last thing done was a
  successful dispatch of a message for it; and when the dispatch fails the set is left
  as it was, without the hash.
\<close>

theorem check_then_record:
  "(transactionHash lg \<in> set (lastSeenTx s) \<longrightarrow> handleLog w lg s = s) \<and>
   (transactionHash lg \<notin> set (lastSeenTx s) \<longrightarrow>
      take 1 (new_effects s (handleLog w lg s)) = [ParseLog lg]) \<and>
   (transactionHash lg \<notin> set (lastSeenTx s) \<and>
    transactionHash lg \<in> set (lastSeenTx (handleLog w lg s)) \<longrightarrow>
      (\<exists>ms. last (new_effects s (handleLog w lg s)) = SendMessage ms True \<and>
            m_tx ms = transactionHash lg)) \<and>
   (SendMessage ms False \<in> set (new_effects s (handleLog w lg s)) \<longrightarrow>
      lastSeenTx (handleLog w lg s) = lastSeenTx s \<and>
      transactionHash lg \<notin> set (lastSeenTx (handleLog w lg s)))"
  using handleLog_seen [of lg s w] handleLog_first_effect [of lg s w]
    handleLog_recorded [of lg s w] handleLog_failed_send [of ms s w lg]
  by auto

theorem check_then_record_witness:
  "transactionHash mint_log \<in> set (lastSeenTx seen_state) \<and>
   handleLog demo_world mint_log seen_state = seen_state \<and>
   transactionHash mint_log \<notin> set (lastSeenTx initial) \<and>
   take 1 (new_effects initial (handleLog demo_world mint_log initial)) = [ParseLog mint_log] \<and>
   transactionHash mint_log \<in> set (lastSeenTx (handleLog demo_world mint_log initial)) \<and>
   (\<exists>ms. last (new_effects initial (handleLog demo_world mint_log initial)) = SendMessage ms True \<and>
         m_tx ms = transactionHash mint_log) \<and>
   SendMessage mint_msg False \<in> set (new_effects initial (handleLog deaf_channel mint_log initial)) \<and>
   lastSeenTx (handleLog deaf_channel mint_log initial) = lastSeenTx initial"
proof -
  have h1: "transactionHash mint_log \<in> set (lastSeenTx seen_state)"
    by (simp add: demo_defs)
  have h2: "transactionHash mint_log \<notin> set (lastSeenTx initial)"
    by (simp add: demo_defs)
  have h3: "transactionHash mint_log \<in> set (lastSeenTx (handleLog demo_world mint_log initial))"
    by (simp add: demo_defs numeral_2_eq_2)
  have h4: "SendMessage mint_msg False \<in>
      set (new_effects initial (handleLog deaf_channel mint_log initial))"
    by (simp add: demo_defs numeral_2_eq_2)
  from h1 h2 h3 h4 check_then_record [of mint_log seen_state demo_world mint_msg]
    check_then_record [of mint_log initial demo_world mint_msg]
    check_then_record [of mint_log initial deaf_channel mint_msg]
  show ?thesis by blast
qed

text \<open>
  When the message for one log of a transaction has been dispatched before the handling
  of a later log with the same hash starts, the later log is skipped before decoding.
\<close>

lemma later_log_is_skipped:
  "transactionHash lg2 = transactionHash lg1 \<and>
   SendMessage ms True \<in> set (new_effects s (handleLog w lg1 s)) \<longrightarrow>
     handleLog w lg2 (handleLog w lg1 s) = handleLog w lg1 s \<and>
     new_effects (handleLog w lg1 s) (handleLog w lg2 (handleLog w lg1 s)) = [] \<and>
     fold (handleLog w) (replicate n lg2) (handleLog w lg1 s) = handleLog w lg1 s"
proof (intro impI, elim conjE)
  assume e: "transactionHash lg2 = transactionHash lg1"
    and d: "SendMessage ms True \<in> set (new_effects s (handleLog w lg1 s))"
  from handleLog_dispatched [OF d] e
  have "transactionHash lg2 \<in> set (lastSeenTx (handleLog w lg1 s))" by simp
  then have r: "handleLog w lg2 (handleLog w lg1 s) = handleLog w lg1 s" by (rule handleLog_seen)
  have "fold (handleLog w) (replicate n lg2) (handleLog w lg1 s) = handleLog w lg1 s"
    by (induction n) (simp_all add: r)
  with r show "handleLog w lg2 (handleLog w lg1 s) = handleLog w lg1 s \<and>
     new_effects (handleLog w lg1 s) (handleLog w lg2 (handleLog w lg1 s)) = [] \<and>
     fold (handleLog w) (replicate n lg2) (handleLog w lg1 s) = handleLog w lg1 s" by simp
qed

section \<open>Classification\<close>

lemma classify_Mint: "classify sender recipient = Mint \<longleftrightarrow> toLowerCase sender = ZERO"
  by (simp add: classify_def)

lemma classify_Burn:
  "classify sender recipient = Burn \<longleftrightarrow> toLowerCase sender \<noteq> ZERO \<and> toLowerCase recipient = ZERO"
  by (simp add: classify_def)

lemma classify_Ignored:
  "classify sender recipient = Ignored \<longleftrightarrow>
     toLowerCase sender \<noteq> ZERO \<and> toLowerCase recipient \<noteq> ZERO"
  by (simp add: classify_def)

lemma handleLog_ignored:
  "transactionHash lg \<notin> set (lastSeenTx s) \<Longrightarrow> parseLog w lg = Some p \<Longrightarrow>
   classify (arg_from p) (arg_to p) = Ignored \<Longrightarrow> handleLog w lg s = emit (ParseLog lg) s"
  by (simp add: handleLog_def handleLog_try_ignored)

text \<open>What handleLog does with a mint or a burn of a transaction not yet seen.\<close>

lemma handleLog_qualifying:
  assumes "transactionHash lg \<notin> set (lastSeenTx s)" "parseLog w lg = Some p"
    "classify (arg_from p) (arg_to p) \<noteq> Ignored" "getAddress w (address lg) = Some a"
    "meta_or_placeholder w a (emit (ParseLog lg) s) = (m, s3)"
  shows "handleLog w lg s =
     (if bot_sendMessage w (tick s3) (message w (classify (arg_from p) (arg_to p)) m a p lg)
      then (emit (SendMessage (message w (classify (arg_from p) (arg_to p)) m a p lg) True) s3)
             \<lparr>lastSeenTx := record_seen (transactionHash lg) (lastSeenTx s3)\<rparr>
      else emit (ConsoleError ''Error handling log:'')
             (emit (SendMessage (message w (classify (arg_from p) (arg_to p)) m a p lg) False) s3))"
  using assms by (simp add: handleLog_def handleLog_try_qualifying)

lemma handleLog_sends:
  assumes "transactionHash lg \<notin> set (lastSeenTx s)" "parseLog w lg = Some p"
    "classify (arg_from p) (arg_to p) \<noteq> Ignored" "getAddress w (address lg) = Some a"
    "meta_or_placeholder w a (emit (ParseLog lg) s) = (m, s3)"
  shows "SendMessage (message w (classify (arg_from p) (arg_to p)) m a p lg)
           (bot_sendMessage w (tick s3) (message w (classify (arg_from p) (arg_to p)) m a p lg))
         \<in> set (new_effects s (handleLog w lg s))"
proof -
  from meta_or_placeholder_grows [OF assms(5)] obtain es where
    es: "trace s3 = trace s @ ParseLog lg # es" unfolding grows_def by auto
  let ?ms = "message w (classify (arg_from p) (arg_to p)) m a p lg"
  show ?thesis
  proof (cases "bot_sendMessage w (tick s3) ?ms")
    case True
    then have "trace (handleLog w lg s) = trace s @ (ParseLog lg # es @ [SendMessage ?ms True])"
      using handleLog_qualifying [OF assms] es by simp
    then have "new_effects s (handleLog w lg s) = ParseLog lg # es @ [SendMessage ?ms True]"
      by (rule new_effects_append)
    then show ?thesis using True by simp
  next
    case False
    then have "trace (handleLog w lg s) =
        trace s @ (ParseLog lg # es @ [SendMessage ?ms False, ConsoleError ''Error handling log:''])"
      using handleLog_qualifying [OF assms] es by simp
    then have "new_effects s (handleLog w lg s) =
        ParseLog lg # es @ [SendMessage ?ms False, ConsoleError ''Error handling log:'']"
      by (rule new_effects_append)
    then show ?thesis using False by simp
  qed
qed

text \<open>
  Claim C2 says that a transfer whose sender and recipient are both the zero address is
  ignored. It is not: the label is chosen by the sender alone once one of the two is
  the zero address, so such a log is decoded, labelled a mint and reported.
\<close>

theorem double_zero_is_mint:
  "parseLog demo_world zero_zero_log = Some \<lparr>arg_from = ZERO, arg_to = ZERO, arg_value = 1000000000000000000\<rparr> \<and>
   classify ZERO ZERO = Mint \<and>
   new_effects initial (handleLog demo_world zero_zero_log initial) =
     [ParseLog zero_zero_log, CallSymbol token_addr, CallDecimals token_addr,
      SendMessage \<lparr>m_type = Mint, m_symbol = ''EURP'', m_tokenAddr = token_addr, m_from = ZERO,
        m_to = ZERO, m_amount = ''1.0'', m_tx = tx2,
        m_link = txLink tx2, m_block = 100\<rparr> True]"
  by (simp add: demo_defs numeral_2_eq_2)

text \<open>
  Claim C2, as the code has it. A decoded transfer is a mint exactly when its sender is
  the zero address (also when the recipient is the zero address too), a burn exactly
  when its recipient is the zero address and its sender is not, and ignored exactly
  when neither is, the comparison being made on the lower-cased addresses. An ignored
  transfer ends the handling right after decoding: no message, no other effect, caches
  and deduplication set untouched. A mint or burn with a valid contract address has a
  message of its kind handed to the channel.
\<close>

theorem mint_burn_ignored:
  "(classify sender recipient = Mint \<longleftrightarrow> toLowerCase sender = ZERO) \<and>
   (classify sender recipient = Burn \<longleftrightarrow>
      toLowerCase sender \<noteq> ZERO \<and> toLowerCase recipient = ZERO) \<and>
   (classify sender recipient = Ignored \<longleftrightarrow>
      toLowerCase sender \<noteq> ZERO \<and> toLowerCase recipient \<noteq> ZERO) \<and>
   (transactionHash lg \<notin> set (lastSeenTx s) \<and> parseLog w lg = Some p \<and>
    classify (arg_from p) (arg_to p) = Ignored \<longrightarrow>
      handleLog w lg s = emit (ParseLog lg) s) \<and>
   (transactionHash lg \<notin> set (lastSeenTx s) \<and> parseLog w lg = Some p \<and>
    classify (arg_from p) (arg_to p) \<noteq> Ignored \<and> getAddress w (address lg) = Some a \<longrightarrow>
      (\<exists>ms ok. SendMessage ms ok \<in> set (new_effects s (handleLog w lg s)) \<and>
         m_type ms = classify (arg_from p) (arg_to p) \<and> m_tx ms = transactionHash lg))"
proof (intro conjI impI)
  assume h: "transactionHash lg \<notin> set (lastSeenTx s) \<and> parseLog w lg = Some p \<and>
    classify (arg_from p) (arg_to p) \<noteq> Ignored \<and> getAddress w (address lg) = Some a"
  obtain m s3 where mp: "meta_or_placeholder w a (emit (ParseLog lg) s) = (m, s3)"
    by (cases "meta_or_placeholder w a (emit (ParseLog lg) s)") auto
  let ?ms = "message w (classify (arg_from p) (arg_to p)) m a p lg"
  have "SendMessage ?ms (bot_sendMessage w (tick s3) ?ms) \<in> set (new_effects s (handleLog w lg s))"
    using h mp by (intro handleLog_sends) auto
  moreover have "m_type ?ms = classify (arg_from p) (arg_to p) \<and> m_tx ?ms = transactionHash lg"
    by (simp add: message_def Let_def)
  ultimately show "\<exists>ms ok. SendMessage ms ok \<in> set (new_effects s (handleLog w lg s)) \<and>
         m_type ms = classify (arg_from p) (arg_to p) \<and> m_tx ms = transactionHash lg"
    by blast
qed (simp_all add: classify_Mint classify_Burn classify_Ignored handleLog_ignored)

theorem mint_burn_ignored_witness:
  "transactionHash plain_log \<notin> set (lastSeenTx initial) \<and>
   parseLog demo_world plain_log = Some \<lparr>arg_from = alice, arg_to = bob, arg_value = 1000000000000000000\<rparr> \<and>
   classify alice bob = Ignored \<and>
   handleLog demo_world plain_log initial = emit (ParseLog plain_log) initial \<and>
   transactionHash burn_log \<notin> set (lastSeenTx initial) \<and>
   parseLog demo_world burn_log = Some \<lparr>arg_from = alice, arg_to = ZERO, arg_value = 1000000000000000000\<rparr> \<and>
   classify alice ZERO = Burn \<and> getAddress demo_world (address burn_log) = Some token_addr \<and>
   (\<exists>ms ok. SendMessage ms ok \<in> set (new_effects initial (handleLog demo_world burn_log initial)) \<and>
      m_type ms = Burn \<and> m_tx ms = transactionHash burn_log)"
proof -
  let ?p = "\<lparr>arg_from = alice, arg_to = bob, arg_value = 1000000000000000000\<rparr>"
  let ?q = "\<lparr>arg_from = alice, arg_to = ZERO, arg_value = 1000000000000000000\<rparr>"
  have h1: "transactionHash plain_log \<notin> set (lastSeenTx initial) \<and>
      parseLog demo_world plain_log = Some ?p \<and> classify (arg_from ?p) (arg_to ?p) = Ignored"
    by (simp add: demo_defs)
  have h2: "transactionHash burn_log \<notin> set (lastSeenTx initial) \<and>
      parseLog demo_world burn_log = Some ?q \<and> classify (arg_from ?q) (arg_to ?q) \<noteq> Ignored \<and>
      getAddress demo_world (address burn_log) = Some token_addr"
    by (simp add: demo_defs)
  have h3: "classify alice ZERO = Burn \<and> classify alice bob = Ignored"
    by (simp add: demo_defs)
  from h1 h2 h3 mint_burn_ignored [of alice bob plain_log initial demo_world ?p token_addr]
    mint_burn_ignored [of alice ZERO burn_log initial demo_world ?q token_addr]
  show ?thesis by auto
qed

section \<open>Retries\<close>

lemma pRetry_two:
  "pRetry b run \<lparr>retries = 2, factor = 3 / 2\<rparr> s =
     (case run s of
        (Some v, s1) \<Rightarrow> (Some v, s1)
      | (None, s1) \<Rightarrow>
          (case run (emit (Backoff b) s1) of
             (Some v, s2) \<Rightarrow> (Some v, s2)
           | (None, s2) \<Rightarrow> run (emit (Backoff (b * 3 / 2)) s2)))"
  by (simp add: pRetry_def numeral_2_eq_2 split: prod.splits option.splits)

lemma pRetry_symbol_fails:
  assumes "\<And>t. contract_symbol w t a = None"
  shows "pRetry (retry_minTimeout w) (call_symbol w a) \<lparr>retries = 2, factor = 3 / 2\<rparr> s =
     (None, s\<lparr>trace := trace s @
        [CallSymbol a, Backoff (retry_minTimeout w), CallSymbol a, Backoff (retry_minTimeout w * 3 / 2), CallSymbol a]\<rparr>)"
  by (simp add: pRetry_two call_symbol_def assms emit_def)

lemma pRetry_decimals_fails:
  assumes "\<And>t. contract_decimals w t a = None"
  shows "pRetry (retry_minTimeout w) (call_decimals w a) \<lparr>retries = 2, factor = 3 / 2\<rparr> s =
     (None, s\<lparr>trace := trace s @
        [CallDecimals a, Backoff (retry_minTimeout w), CallDecimals a, Backoff (retry_minTimeout w * 3 / 2), CallDecimals a]\<rparr>)"
  by (simp add: pRetry_two call_decimals_def assms emit_def)

lemma pRetry_symbol_first_try:
  assumes "contract_symbol w (tick s) a = Some sy"
  shows "pRetry (retry_minTimeout w) (call_symbol w a) \<lparr>retries = 2, factor = 3 / 2\<rparr> s = (Some sy, emit (CallSymbol a) s)"
  by (simp add: pRetry_two call_symbol_def assms)

lemma pRetry_decimals_first_try:
  assumes "contract_decimals w (tick s) a = Some d"
  shows "pRetry (retry_minTimeout w) (call_decimals w a) \<lparr>retries = 2, factor = 3 / 2\<rparr> s = (Some d, emit (CallDecimals a) s)"
  by (simp add: pRetry_two call_decimals_def assms)

lemma pRetry_symbol_third_try:
  assumes "contract_symbol w (tick s) a = None" "contract_symbol w (tick s + 2) a = None"
    "contract_symbol w (tick s + 4) a = Some sy"
  shows "pRetry (retry_minTimeout w) (call_symbol w a) \<lparr>retries = 2, factor = 3 / 2\<rparr> s =
     (Some sy, s\<lparr>trace := trace s @
        [CallSymbol a, Backoff (retry_minTimeout w), CallSymbol a, Backoff (retry_minTimeout w * 3 / 2), CallSymbol a]\<rparr>)"
proof -
  have a2: "contract_symbol w (Suc (Suc (length (trace s)))) a = None"
    using assms(2) by (simp add: tick_def eval_nat_numeral)
  have a3: "contract_symbol w (Suc (Suc (Suc (Suc (length (trace s)))))) a = Some sy"
    using assms(3) by (simp add: tick_def eval_nat_numeral)
  show ?thesis
    using assms(1) a2 a3 by (simp add: pRetry_two call_symbol_def emit_def tick_def)
qed

lemma pRetry_symbol_starts:
  "\<exists>es. trace (snd (pRetry (retry_minTimeout w) (call_symbol w a) \<lparr>retries = 2, factor = 3 / 2\<rparr> s)) =
     trace s @ CallSymbol a # es"
  by (simp add: pRetry_two call_symbol_def emit_def split: option.splits)

lemma getTokenMeta_symbol_fails:
  assumes "getAddress w addr = Some a" "tokenCache s a = None" "\<And>t. contract_symbol w t a = None"
  shows "getTokenMeta w addr s =
     (None, s\<lparr>trace := trace s @
        [CallSymbol a, Backoff (retry_minTimeout w), CallSymbol a, Backoff (retry_minTimeout w * 3 / 2), CallSymbol a]\<rparr>)"
  using assms(1,2) by (simp add: getTokenMeta_def pRetry_symbol_fails [of w a, OF assms(3)])

lemma getTokenMeta_decimals_fails:
  assumes "getAddress w addr = Some a" "tokenCache s a = None"
    "contract_symbol w (tick s) a = Some sy" "\<And>t. contract_decimals w t a = None"
  shows "getTokenMeta w addr s =
     (None, s\<lparr>trace := trace s @
        [CallSymbol a, CallDecimals a, Backoff (retry_minTimeout w), CallDecimals a, Backoff (retry_minTimeout w * 3 / 2),
         CallDecimals a]\<rparr>)"
  using assms(1,2)
  by (simp add: getTokenMeta_def pRetry_symbol_first_try [OF assms(3)]
      pRetry_decimals_fails [of w a, OF assms(4)] emit_def)

lemma getTokenMeta_third_try:
  assumes "getAddress w addr = Some a" "tokenCache s a = None"
    "contract_symbol w (tick s) a = None" "contract_symbol w (tick s + 2) a = None"
    "contract_symbol w (tick s + 4) a = Some sy" "contract_decimals w (tick s + 5) a = Some d"
  shows "fst (getTokenMeta w addr s) =
     Some \<lparr>symbol = sy, decimals = d, fetchedAt = Some (Date_now w (tick s + 6))\<rparr>"
proof -
  let ?s1 = "s\<lparr>trace := trace s @
        [CallSymbol a, Backoff (retry_minTimeout w), CallSymbol a, Backoff (retry_minTimeout w * 3 / 2), CallSymbol a]\<rparr>"
  have t: "tick ?s1 = tick s + 5" by (simp add: tick_def)
  have d: "pRetry (retry_minTimeout w) (call_decimals w a) \<lparr>retries = 2, factor = 3 / 2\<rparr> ?s1 =
      (Some d, emit (CallDecimals a) ?s1)"
    by (rule pRetry_decimals_first_try) (simp add: t assms(6))
  have t2: "tick (emit (CallDecimals a) ?s1) = tick s + 6" by (simp add: tick_def)
  show ?thesis
    using assms(1,2) t2
    by (simp add: getTokenMeta_def pRetry_symbol_third_try [OF assms(3,4,5)] d Let_def
        del: tick_emit)
qed

lemma getTokenMeta_None_miss:
  "fst (getTokenMeta w addr s) = None \<Longrightarrow> getAddress w addr = Some a \<Longrightarrow> tokenCache s a = None"
  by (cases "tokenCache s a") (simp_all add: getTokenMeta_def)

lemma getTokenMeta_miss_starts:
  assumes "getAddress w addr = Some a" "tokenCache s a = None"
  shows "\<exists>es. trace (snd (getTokenMeta w addr s)) = trace s @ CallSymbol a # es"
proof -
  obtain r1 s1 where p1: "pRetry (retry_minTimeout w) (call_symbol w a) \<lparr>retries = 2, factor = 3 / 2\<rparr> s = (r1, s1)"
    by (cases "pRetry (retry_minTimeout w) (call_symbol w a) \<lparr>retries = 2, factor = 3 / 2\<rparr> s") auto
  from pRetry_symbol_starts [of w a s] p1 obtain es where es: "trace s1 = trace s @ CallSymbol a # es"
    by auto
  show ?thesis
  proof (cases r1)
    case None
    then show ?thesis using assms p1 es by (simp add: getTokenMeta_def)
  next
    case (Some sy)
    obtain r2 s2 where p2: "pRetry (retry_minTimeout w) (call_decimals w a) \<lparr>retries = 2, factor = 3 / 2\<rparr> s1 = (r2, s2)"
      by (cases "pRetry (retry_minTimeout w) (call_decimals w a) \<lparr>retries = 2, factor = 3 / 2\<rparr> s1") auto
    from appends_fields(4) [OF pRetry_decimals_appends [of s1 w a "\<lparr>retries = 2, factor = 3 / 2\<rparr>"]] p2
    obtain es2 where "trace s2 = trace s1 @ es2" by auto
    with es have "trace s2 = trace s @ CallSymbol a # (es @ es2)" by simp
    then show ?thesis using assms p1 p2 Some
      by (cases r2) (simp_all add: getTokenMeta_def Let_def)
  qed
qed


section \<open>The placeholder\<close>

lemma meta_or_placeholder_failure:
  "fst (getTokenMeta w a s) = None \<Longrightarrow>
   meta_or_placeholder w a s = (placeholder, emit (ConsoleWarn a) (snd (getTokenMeta w a s)))"
  by (cases "getTokenMeta w a s") (simp add: meta_or_placeholder_def)

lemma getTokenMeta_failure_keeps_cache:
  "fst (getTokenMeta w addr s) = None \<Longrightarrow> tokenCache (snd (getTokenMeta w addr s)) = tokenCache s"
  by (cases "getTokenMeta w addr s") (simp add: appends_fields(1) [OF getTokenMeta_None])

lemma handleLog_placeholder:
  assumes "transactionHash lg \<notin> set (lastSeenTx s)" "parseLog w lg = Some p"
    "classify (arg_from p) (arg_to p) \<noteq> Ignored" "getAddress w (address lg) = Some a"
    "fst (getTokenMeta w a (emit (ParseLog lg) s)) = None"
  shows "SendMessage (message w (classify (arg_from p) (arg_to p)) placeholder a p lg)
           (bot_sendMessage w (Suc (tick (snd (getTokenMeta w a (emit (ParseLog lg) s)))))
              (message w (classify (arg_from p) (arg_to p)) placeholder a p lg))
         \<in> set (new_effects s (handleLog w lg s))"
    and "tokenCache (handleLog w lg s) = tokenCache s"
proof -
  let ?s2 = "snd (getTokenMeta w a (emit (ParseLog lg) s))"
  have mp: "meta_or_placeholder w a (emit (ParseLog lg) s) = (placeholder, emit (ConsoleWarn a) ?s2)"
    using assms(5) by (rule meta_or_placeholder_failure)
  from handleLog_sends [OF assms(1-4) mp]
  show "SendMessage (message w (classify (arg_from p) (arg_to p)) placeholder a p lg)
           (bot_sendMessage w (Suc (tick ?s2))
              (message w (classify (arg_from p) (arg_to p)) placeholder a p lg))
         \<in> set (new_effects s (handleLog w lg s))" by simp
  have "tokenCache ?s2 = tokenCache s"
    using getTokenMeta_failure_keeps_cache [OF assms(5)] by simp
  then show "tokenCache (handleLog w lg s) = tokenCache s"
    using handleLog_qualifying [OF assms(1-4) mp] by simp
qed

lemma handleLog_miss_starts:
  assumes "transactionHash lg \<notin> set (lastSeenTx s)" "parseLog w lg = Some p"
    "classify (arg_from p) (arg_to p) \<noteq> Ignored" "getAddress w (address lg) = Some a"
    "getAddress w a = Some a'" "tokenCache s a' = None"
  shows "take 2 (new_effects s (handleLog w lg s)) = [ParseLog lg, CallSymbol a']"
proof -
  let ?s1 = "emit (ParseLog lg) s"
  obtain m s3 where mp: "meta_or_placeholder w a ?s1 = (m, s3)"
    by (cases "meta_or_placeholder w a ?s1") auto
  have "tokenCache ?s1 a' = None" using assms(6) by simp
  from getTokenMeta_miss_starts [OF assms(5) this] obtain es where
    es: "trace (snd (getTokenMeta w a ?s1)) = trace ?s1 @ CallSymbol a' # es" by blast
  have "\<exists>es'. trace s3 = trace s @ ParseLog lg # CallSymbol a' # es'"
  proof (cases "getTokenMeta w a ?s1")
    case (Pair r s2)
    then show ?thesis using mp es by (cases r) (auto simp: meta_or_placeholder_def)
  qed
  then obtain es' where s3: "trace s3 = trace s @ ParseLog lg # CallSymbol a' # es'" by blast
  have "\<exists>es''. trace (handleLog w lg s) = trace s @ (ParseLog lg # CallSymbol a' # es'')"
    using handleLog_qualifying [OF assms(1-4) mp] s3 by simp
  then obtain es'' where "trace (handleLog w lg s) = trace s @ (ParseLog lg # CallSymbol a' # es'')"
    by blast
  from new_effects_append [OF this] show ?thesis by simp
qed

text \<open>
  Claim C8. On a cache miss the symbol call and the decimals call are each made through
  the retry policy with two retries and factor 3/2: a call that keeps failing is made
  three times, the second wait being 3/2 times the first, and then the
  lookup fails; the decimals call has its own three attempts after a symbol call that
  succeeded; a symbol call that succeeds at its third attempt gives the metadata.
  For a mint or burn log of a transaction not yet seen, with a valid contract
  address, whose metadata lookup fails, the message built with the placeholder
  (symbol TOKEN, amount formatted with 18 decimals) is handed to the channel, with
  the outcome the channel gives it.
\<close>

theorem metadata_retry_and_placeholder:
  "(getAddress w addr = Some a \<and> tokenCache s a = None \<and> (\<forall>t. contract_symbol w t a = None) \<longrightarrow>
      getTokenMeta w addr s =
        (None, s\<lparr>trace := trace s @
           [CallSymbol a, Backoff (retry_minTimeout w), CallSymbol a, Backoff (retry_minTimeout w * (3 / 2)), CallSymbol a]\<rparr>)) \<and>
   (getAddress w addr = Some a \<and> tokenCache s a = None \<and>
    contract_symbol w (tick s) a = Some sy \<and> (\<forall>t. contract_decimals w t a = None) \<longrightarrow>
      getTokenMeta w addr s =
        (None, s\<lparr>trace := trace s @
           [CallSymbol a, CallDecimals a, Backoff (retry_minTimeout w), CallDecimals a,
            Backoff (retry_minTimeout w * (3 / 2)), CallDecimals a]\<rparr>)) \<and>
   (getAddress w addr = Some a \<and> tokenCache s a = None \<and>
    contract_symbol w (tick s) a = None \<and> contract_symbol w (tick s + 2) a = None \<and>
    contract_symbol w (tick s + 4) a = Some sy \<and> contract_decimals w (tick s + 5) a = Some d \<longrightarrow>
      fst (getTokenMeta w addr s) =
        Some \<lparr>symbol = sy, decimals = d, fetchedAt = Some (Date_now w (tick s + 6))\<rparr>) \<and>
   (transactionHash lg \<notin> set (lastSeenTx s) \<and> parseLog w lg = Some p \<and>
    classify (arg_from p) (arg_to p) \<noteq> Ignored \<and> getAddress w (address lg) = Some b \<and>
    fst (getTokenMeta w b (emit (ParseLog lg) s)) = None \<longrightarrow>
      SendMessage (message w (classify (arg_from p) (arg_to p)) placeholder b p lg)
        (bot_sendMessage w (Suc (tick (snd (getTokenMeta w b (emit (ParseLog lg) s)))))
           (message w (classify (arg_from p) (arg_to p)) placeholder b p lg))
        \<in> set (new_effects s (handleLog w lg s)) \<and>
      m_symbol (message w (classify (arg_from p) (arg_to p)) placeholder b p lg) = ''TOKEN'' \<and>
      m_amount (message w (classify (arg_from p) (arg_to p)) placeholder b p lg) =
        formatAmount w (arg_value p) 18)"
proof (intro conjI impI)
  assume "getAddress w addr = Some a \<and> tokenCache s a = None \<and> (\<forall>t. contract_symbol w t a = None)"
  then show "getTokenMeta w addr s =
        (None, s\<lparr>trace := trace s @
           [CallSymbol a, Backoff (retry_minTimeout w), CallSymbol a, Backoff (retry_minTimeout w * (3 / 2)), CallSymbol a]\<rparr>)"
    by (simp add: getTokenMeta_symbol_fails)
next
  assume "getAddress w addr = Some a \<and> tokenCache s a = None \<and>
    contract_symbol w (tick s) a = Some sy \<and> (\<forall>t. contract_decimals w t a = None)"
  then show "getTokenMeta w addr s =
        (None, s\<lparr>trace := trace s @
           [CallSymbol a, CallDecimals a, Backoff (retry_minTimeout w), CallDecimals a,
            Backoff (retry_minTimeout w * (3 / 2)), CallDecimals a]\<rparr>)"
    by (simp add: getTokenMeta_decimals_fails)
next
  assume "getAddress w addr = Some a \<and> tokenCache s a = None \<and>
    contract_symbol w (tick s) a = None \<and> contract_symbol w (tick s + 2) a = None \<and>
    contract_symbol w (tick s + 4) a = Some sy \<and> contract_decimals w (tick s + 5) a = Some d"
  then show "fst (getTokenMeta w addr s) =
        Some \<lparr>symbol = sy, decimals = d, fetchedAt = Some (Date_now w (tick s + 6))\<rparr>"
    using getTokenMeta_third_try [of w addr a s sy d] by blast
next
  assume h: "transactionHash lg \<notin> set (lastSeenTx s) \<and> parseLog w lg = Some p \<and>
    classify (arg_from p) (arg_to p) \<noteq> Ignored \<and> getAddress w (address lg) = Some b \<and>
    fst (getTokenMeta w b (emit (ParseLog lg) s)) = None"
  then show "SendMessage (message w (classify (arg_from p) (arg_to p)) placeholder b p lg)
        (bot_sendMessage w (Suc (tick (snd (getTokenMeta w b (emit (ParseLog lg) s)))))
           (message w (classify (arg_from p) (arg_to p)) placeholder b p lg))
        \<in> set (new_effects s (handleLog w lg s))"
    using handleLog_placeholder(1) [of lg s w p b] by blast
qed (simp_all add: message_def placeholder_def Let_def)

theorem metadata_retry_and_placeholder_witness:
  "getAddress mute_symbol token_addr = Some token_addr \<and> tokenCache initial token_addr = None \<and>
   (\<forall>t. contract_symbol mute_symbol t token_addr = None) \<and>
   fst (getTokenMeta mute_symbol token_addr initial) = None \<and>
   contract_symbol mute_decimals (tick initial) token_addr = Some ''EURP'' \<and>
   (\<forall>t. contract_decimals mute_decimals t token_addr = None) \<and>
   fst (getTokenMeta mute_decimals token_addr initial) = None \<and>
   contract_symbol flaky_symbol (tick initial) token_addr = None \<and>
   contract_symbol flaky_symbol (tick initial + 2) token_addr = None \<and>
   contract_symbol flaky_symbol (tick initial + 4) token_addr = Some ''EURP'' \<and>
   contract_decimals flaky_symbol (tick initial + 5) token_addr = Some 18 \<and>
   fst (getTokenMeta flaky_symbol token_addr initial) =
     Some \<lparr>symbol = ''EURP'', decimals = 18, fetchedAt = Some 6\<rparr> \<and>
   transactionHash mint_log \<notin> set (lastSeenTx initial) \<and>
   parseLog mute_symbol mint_log = Some \<lparr>arg_from = ZERO, arg_to = alice, arg_value = 1000000000000000000\<rparr> \<and>
   classify ZERO alice = Mint \<and>
   fst (getTokenMeta mute_symbol token_addr (emit (ParseLog mint_log) initial)) = None \<and>
   SendMessage (mint_msg\<lparr>m_symbol := ''TOKEN''\<rparr>) True
     \<in> set (new_effects initial (handleLog mute_symbol mint_log initial))"
proof -
  let ?p = "\<lparr>arg_from = ZERO, arg_to = alice, arg_value = 1000000000000000000\<rparr>"
  have h1: "getAddress mute_symbol token_addr = Some token_addr \<and> tokenCache initial token_addr = None \<and>
      (\<forall>t. contract_symbol mute_symbol t token_addr = None)"
    by (simp add: demo_defs)
  have h2: "getAddress mute_decimals token_addr = Some token_addr \<and>
      contract_symbol mute_decimals (tick initial) token_addr = Some ''EURP'' \<and>
      (\<forall>t. contract_decimals mute_decimals t token_addr = None)"
    by (simp add: demo_defs)
  have h3: "getAddress flaky_symbol token_addr = Some token_addr \<and>
      contract_symbol flaky_symbol (tick initial) token_addr = None \<and>
      contract_symbol flaky_symbol (tick initial + 2) token_addr = None \<and>
      contract_symbol flaky_symbol (tick initial + 4) token_addr = Some ''EURP'' \<and>
      contract_decimals flaky_symbol (tick initial + 5) token_addr = Some 18 \<and>
      Date_now flaky_symbol (tick initial + 6) = 6"
    by (simp add: demo_defs)
  have h4: "transactionHash mint_log \<notin> set (lastSeenTx initial) \<and>
      parseLog mute_symbol mint_log = Some ?p \<and> classify (arg_from ?p) (arg_to ?p) \<noteq> Ignored \<and>
      classify ZERO alice = Mint \<and>
      getAddress mute_symbol (address mint_log) = Some token_addr \<and>
      fst (getTokenMeta mute_symbol token_addr (emit (ParseLog mint_log) initial)) = None"
    by (simp add: demo_defs numeral_2_eq_2)
  have h5: "message mute_symbol Mint placeholder token_addr ?p mint_log = mint_msg\<lparr>m_symbol := ''TOKEN''\<rparr> \<and>
      bot_sendMessage mute_symbol
        (Suc (tick (snd (getTokenMeta mute_symbol token_addr (emit (ParseLog mint_log) initial)))))
        (mint_msg\<lparr>m_symbol := ''TOKEN''\<rparr>) = True"
    by (simp add: demo_defs)
  from h1 h2 h3 h4 h5
    metadata_retry_and_placeholder [of mute_symbol token_addr token_addr initial "''EURP''" 18
      mint_log ?p token_addr]
    metadata_retry_and_placeholder [of mute_decimals token_addr token_addr initial "''EURP''" 18
      mint_log ?p token_addr]
    metadata_retry_and_placeholder [of flaky_symbol token_addr token_addr initial "''EURP''" 18
      mint_log ?p token_addr]
  show ?thesis by simp
qed

text \<open>
  Claim C9. A metadata lookup that fails leaves the token cache as it was, and so does
  the handling of a mint or burn log that falls back to the placeholder: the
  placeholder is not stored. The address is still missing from the cache afterwards,
  and the next mint or burn log of the same contract, of a transaction not yet seen,
  starts with decoding followed by a new symbol call to the contract.
\<close>

theorem placeholder_not_cached:
  "(fst (getTokenMeta w addr s) = None \<longrightarrow>
      tokenCache (snd (getTokenMeta w addr s)) = tokenCache s) \<and>
   (transactionHash lg \<notin> set (lastSeenTx s) \<and> parseLog w lg = Some p \<and>
    classify (arg_from p) (arg_to p) \<noteq> Ignored \<and> getAddress w (address lg) = Some a \<and>
    fst (getTokenMeta w a (emit (ParseLog lg) s)) = None \<longrightarrow>
      tokenCache (handleLog w lg s) = tokenCache s) \<and>
   (transactionHash lg \<notin> set (lastSeenTx s) \<and> parseLog w lg = Some p \<and>
    classify (arg_from p) (arg_to p) \<noteq> Ignored \<and> getAddress w (address lg) = Some a \<and>
    fst (getTokenMeta w a (emit (ParseLog lg) s)) = None \<and> getAddress w a = Some a' \<and>
    transactionHash lg2 \<notin> set (lastSeenTx (handleLog w lg s)) \<and> parseLog w lg2 = Some p2 \<and>
    classify (arg_from p2) (arg_to p2) \<noteq> Ignored \<and> getAddress w (address lg2) = Some a \<longrightarrow>
      tokenCache (handleLog w lg s) a' = None \<and>
      take 2 (new_effects (handleLog w lg s) (handleLog w lg2 (handleLog w lg s))) =
        [ParseLog lg2, CallSymbol a'])"
proof (intro conjI impI)
  assume "fst (getTokenMeta w addr s) = None"
  then show "tokenCache (snd (getTokenMeta w addr s)) = tokenCache s"
    by (rule getTokenMeta_failure_keeps_cache)
next
  assume "transactionHash lg \<notin> set (lastSeenTx s) \<and> parseLog w lg = Some p \<and>
    classify (arg_from p) (arg_to p) \<noteq> Ignored \<and> getAddress w (address lg) = Some a \<and>
    fst (getTokenMeta w a (emit (ParseLog lg) s)) = None"
  then show "tokenCache (handleLog w lg s) = tokenCache s"
    using handleLog_placeholder(2) [of lg s w p a] by blast
next
  assume h: "transactionHash lg \<notin> set (lastSeenTx s) \<and> parseLog w lg = Some p \<and>
    classify (arg_from p) (arg_to p) \<noteq> Ignored \<and> getAddress w (address lg) = Some a \<and>
    fst (getTokenMeta w a (emit (ParseLog lg) s)) = None \<and> getAddress w a = Some a' \<and>
    transactionHash lg2 \<notin> set (lastSeenTx (handleLog w lg s)) \<and> parseLog w lg2 = Some p2 \<and>
    classify (arg_from p2) (arg_to p2) \<noteq> Ignored \<and> getAddress w (address lg2) = Some a"
  then have same: "tokenCache (handleLog w lg s) = tokenCache s"
    using handleLog_placeholder(2) [of lg s w p a] by blast
  from h have "tokenCache (emit (ParseLog lg) s) a' = None"
    using getTokenMeta_None_miss [of w a "emit (ParseLog lg) s" a'] by blast
  with same have miss: "tokenCache (handleLog w lg s) a' = None" by simp
  show "tokenCache (handleLog w lg s) a' = None" by (rule miss)
  show "take 2 (new_effects (handleLog w lg s) (handleLog w lg2 (handleLog w lg s))) =
        [ParseLog lg2, CallSymbol a']"
    using h miss handleLog_miss_starts [of lg2 "handleLog w lg s" w p2 a a'] by blast
qed

theorem placeholder_not_cached_witness:
  "fst (getTokenMeta mute_symbol token_addr initial) = None \<and>
   tokenCache (snd (getTokenMeta mute_symbol token_addr initial)) = tokenCache initial \<and>
   transactionHash mint_log \<notin> set (lastSeenTx initial) \<and>
   parseLog mute_symbol mint_log = Some \<lparr>arg_from = ZERO, arg_to = alice, arg_value = 1000000000000000000\<rparr> \<and>
   classify ZERO alice \<noteq> Ignored \<and> getAddress mute_symbol (address mint_log) = Some token_addr \<and>
   fst (getTokenMeta mute_symbol token_addr (emit (ParseLog mint_log) initial)) = None \<and>
   getAddress mute_symbol token_addr = Some token_addr \<and>
   transactionHash later_mint_log \<notin> set (lastSeenTx (handleLog mute_symbol mint_log initial)) \<and>
   parseLog mute_symbol later_mint_log =
     Some \<lparr>arg_from = ZERO, arg_to = bob, arg_value = 1000000000000000000\<rparr> \<and>
   classify ZERO bob \<noteq> Ignored \<and>
   getAddress mute_symbol (address later_mint_log) = Some token_addr \<and>
   tokenCache (handleLog mute_symbol mint_log initial) = tokenCache initial \<and>
   tokenCache (handleLog mute_symbol mint_log initial) token_addr = None \<and>
   take 2 (new_effects (handleLog mute_symbol mint_log initial)
     (handleLog mute_symbol later_mint_log (handleLog mute_symbol mint_log initial))) =
     [ParseLog later_mint_log, CallSymbol token_addr]"
proof -
  let ?p = "\<lparr>arg_from = ZERO, arg_to = alice, arg_value = 1000000000000000000\<rparr>"
  let ?p2 = "\<lparr>arg_from = ZERO, arg_to = bob, arg_value = 1000000000000000000\<rparr>"
  have h1: "fst (getTokenMeta mute_symbol token_addr initial) = None"
    by (simp add: demo_defs numeral_2_eq_2)
  have h2: "transactionHash mint_log \<notin> set (lastSeenTx initial) \<and>
      parseLog mute_symbol mint_log = Some ?p \<and> classify (arg_from ?p) (arg_to ?p) \<noteq> Ignored \<and>
      getAddress mute_symbol (address mint_log) = Some token_addr \<and>
      fst (getTokenMeta mute_symbol token_addr (emit (ParseLog mint_log) initial)) = None \<and>
      getAddress mute_symbol token_addr = Some token_addr"
    by (simp add: demo_defs numeral_2_eq_2)
  have h3: "transactionHash later_mint_log \<notin> set (lastSeenTx (handleLog mute_symbol mint_log initial))"
    by (simp add: demo_defs numeral_2_eq_2)
  have h4: "parseLog mute_symbol later_mint_log = Some ?p2 \<and>
      classify (arg_from ?p2) (arg_to ?p2) \<noteq> Ignored \<and>
      getAddress mute_symbol (address later_mint_log) = Some token_addr"
    by (simp add: demo_defs)
  have h5: "tokenCache initial token_addr = None" by (simp add: initial_def)
  from h1 h2 h3 h4 h5
    placeholder_not_cached [of mute_symbol token_addr initial mint_log ?p token_addr token_addr
      later_mint_log ?p2]
  show ?thesis by simp
qed

section \<open>Steps and whole callbacks\<close>

lemma handleLog_in_steps:
  "handleLog w lg s = snd (resume w (fst (handleLog_start w lg s)) (snd (handleLog_start w lg s)))"
proof (cases "transactionHash lg \<in> set (lastSeenTx s)")
  case True
  then show ?thesis by (simp add: handleLog_seen handleLog_start_def)
next
  case unseen: False
  show ?thesis
  proof (cases "parseLog w lg")
    case None
    then show ?thesis using unseen
      by (simp add: handleLog_def handleLog_try_parse_fails handleLog_start_def)
  next
    case (Some p)
    show ?thesis
    proof (cases "classify (arg_from p) (arg_to p) = Ignored")
      case True
      then show ?thesis using unseen Some
        by (simp add: handleLog_def handleLog_try_ignored handleLog_start_def)
    next
      case q: False
      show ?thesis
      proof (cases "getAddress w (address lg)")
        case None
        then show ?thesis using unseen Some q
          by (cases "classify (arg_from p) (arg_to p)")
             (simp_all add: handleLog_def handleLog_try_bad_address handleLog_start_def)
      next
        case a: (Some a)
        obtain m s3 where mp: "meta_or_placeholder w a (emit (ParseLog lg) s) = (m, s3)"
          by (cases "meta_or_placeholder w a (emit (ParseLog lg) s)") auto
        have st: "handleLog_start w lg s =
            (AwaitSend lg (message w (classify (arg_from p) (arg_to p)) m a p lg) (tick s3), s3)"
          using unseen Some q a mp
          by (cases "classify (arg_from p) (arg_to p)") (simp_all add: handleLog_start_def)
        show ?thesis
          using handleLog_qualifying [OF unseen Some q a mp] st by simp
      qed
    qed
  qed
qed

lemma onLog_in_steps:
  "onLog w l s = snd (resume w (fst (onLog_start w l s)) (snd (onLog_start w l s)))"
  by (simp add: onLog_def onLog_start_def handleLog_in_steps [symmetric] Let_def
      split: option.splits)

lemma onBlock_in_steps:
  "onBlock w b s = snd (resume w (fst (onBlock_start w b s)) (snd (onBlock_start w b s)))"
  by (simp add: onBlock_def onBlock_try_def onBlock_start_def Let_def tick_def
      split: option.splits sum.splits)

lemma run_events_one_log: "run_events w [LogEvent lg, Settle 0] s = onLog w (Some lg) s"
  by (cases "onLog_start w (Some lg) s") (simp add: run_events_def onLog_in_steps split: prod.splits)

lemma run_events_one_block: "run_events w [BlockEvent b, Settle 0] s = onBlock w b s"
  by (cases "onBlock_start w b s") (simp add: run_events_def onBlock_in_steps split: prod.splits)


text \<open>
  Claim C10, on the code. A transaction emits a mint and a burn. In the subscription
  variant \<^verbatim>\<open>handleLog\<close> is started and not awaited, and the hash is recorded only
  after \<^verbatim>\<open>bot.sendMessage\<close> has settled: the second log is delivered while the first
  message is on its way, passes the check, is decoded, and a second message for the
  same transaction is dispatched. When the first dispatch settles before the second
  log is delivered there is one message, and so there is in a pass of the polling
  variant, which awaits \<^verbatim>\<open>handleLog\<close> for each log.
\<close>

theorem overlapping_logs_notify_twice:
  "transactionHash burn_log = transactionHash mint_log \<and>
   trace (run_events demo_world [LogEvent mint_log, LogEvent burn_log, Settle 0, Settle 1] initial) =
     [ParseLog mint_log, CallSymbol token_addr, CallDecimals token_addr, ParseLog burn_log,
      SendMessage mint_msg True, SendMessage burn_msg True] \<and>
   m_tx mint_msg = m_tx burn_msg \<and>
   trace (run_events demo_world [LogEvent mint_log, Settle 0, LogEvent burn_log, Settle 1] initial) =
     [ParseLog mint_log, CallSymbol token_addr, CallDecimals token_addr,
      SendMessage mint_msg True] \<and>
   provider_getLogs two_logs 0 100 100 = Some [mint_log, burn_log] \<and>
   trace (onBlock two_logs 100 initial) =
     [GetLogs 100 100, ParseLog mint_log, CallSymbol token_addr, CallDecimals token_addr,
      SendMessage mint_msg True]"
  by (simp add: demo_defs numeral_2_eq_2)

section \<open>The block cursor\<close>

lemma steady_refl: "steady s s"
  by (simp add: steady_def)

lemma steady_trans: "steady s s' \<Longrightarrow> steady s' s'' \<Longrightarrow> steady s s''"
  unfolding steady_def by auto

lemma steady_emit: "\<not> is_query e \<Longrightarrow> steady s (emit e s)"
  by (simp add: steady_def)

lemma quiet_not_query: "list_all quiet es \<Longrightarrow> filter is_query es = []"
proof (induction es)
  case Nil
  show ?case by simp
next
  case (Cons e es)
  then show ?case by (cases e) simp_all
qed

lemma handleLog_steady: "steady s (handleLog w lg s)"
proof (cases "transactionHash lg \<in> set (lastSeenTx s)")
  case True
  then show ?thesis by (simp add: handleLog_seen steady_refl)
next
  case False
  from handleLog_shape [OF False, of w] obtain es where
    q: "list_all quiet es" and l: "lastProcessedBlock (handleLog w lg s) = lastProcessedBlock s"
    and c: "trace (handleLog w lg s) = trace s @ (ParseLog lg # es)
      \<or> (\<exists>ms. trace (handleLog w lg s) = trace s @ (ParseLog lg # es @ [SendMessage ms True]))
      \<or> (\<exists>ms. trace (handleLog w lg s) =
           trace s @ (ParseLog lg # es @ [SendMessage ms False, ConsoleError ''Error handling log:'']))"
    by auto
  from c show ?thesis
    unfolding steady_def using l quiet_not_query [OF q] by (elim disjE exE) simp_all
qed

lemma process_logs_steady: "steady s (reached (process_logs w logs s))"
proof (induction logs arbitrary: s)
  case Nil
  show ?case by (simp add: reached_def steady_refl)
next
  case (Cons lg logs)
  show ?case
  proof (cases "CONFIRMATIONS w > 1")
    case False
    then have "process_logs w (lg # logs) s = process_logs w logs (handleLog w lg s)" by simp
    then show ?thesis using steady_trans [OF handleLog_steady Cons.IH] by simp
  next
    case True
    have e: "steady s (emit GetBlockNumber s)" by (simp add: steady_emit)
    show ?thesis
    proof (cases "provider_getBlockNumber w (tick s)")
      case None
      then show ?thesis using True e by (simp add: reached_def)
    next
      case (Some latest)
      show ?thesis
      proof (cases "blockNumber lg + CONFIRMATIONS w - 1 > latest")
        case True
        then have "process_logs w (lg # logs) s = process_logs w logs (emit GetBlockNumber s)"
          using \<open>CONFIRMATIONS w > 1\<close> Some by simp
        then show ?thesis using steady_trans [OF e Cons.IH] by simp
      next
        case False
        then have "process_logs w (lg # logs) s =
            process_logs w logs (handleLog w lg (emit GetBlockNumber s))"
          using \<open>CONFIRMATIONS w > 1\<close> Some by simp
        then show ?thesis
          using steady_trans [OF e steady_trans [OF handleLog_steady Cons.IH]] by simp
      qed
    qed
  qed
qed

lemma onBlock_empty_range:
  "lastProcessedBlock s \<noteq> 0 \<Longrightarrow> blockNum < lastProcessedBlock s + 1 \<Longrightarrow> onBlock w blockNum s = s"
  by (simp add: onBlock_def onBlock_try_def)

lemma onBlock_try_cases:
  assumes "range_start s blockNum \<le> blockNum"
  shows "lastProcessedBlock (reached (onBlock_try w blockNum s)) = range_start s blockNum - 1 \<and>
     (\<exists>es. trace (reached (onBlock_try w blockNum s)) =
        trace s @ GetLogs (range_start s blockNum) blockNum # es \<and> filter is_query es = []) \<and>
     isl (onBlock_try w blockNum s)
   \<or> lastProcessedBlock (reached (onBlock_try w blockNum s)) = blockNum \<and>
     (\<exists>es. trace (reached (onBlock_try w blockNum s)) =
        trace s @ GetLogs (range_start s blockNum) blockNum # es \<and> filter is_query es = []) \<and>
     \<not> isl (onBlock_try w blockNum s)"
proof -
  let ?s0 = "if lastProcessedBlock s = 0 then s\<lparr>lastProcessedBlock := blockNum - 1\<rparr> else s"
  let ?from = "range_start s blockNum"
  let ?s1 = "emit (GetLogs ?from blockNum) ?s0"
  have f: "lastProcessedBlock ?s0 + 1 = ?from" by (simp add: range_start_def)
  have t0: "trace ?s0 = trace s" "tick ?s0 = tick s" by (simp_all add: tick_def)
  have ne: "\<not> blockNum < lastProcessedBlock ?s0 + 1" using assms f by simp
  show ?thesis
  proof (cases "provider_getLogs w (tick ?s0) ?from blockNum")
    case None
    then have "onBlock_try w blockNum s = Inl ?s1"
      using ne f by (simp add: onBlock_try_def Let_def)
    then show ?thesis using f t0 by (auto simp: reached_def)
  next
    case (Some logs)
    from process_logs_steady [of ?s1 w logs] obtain es where
      l: "lastProcessedBlock (reached (process_logs w logs ?s1)) = lastProcessedBlock ?s1"
      and es: "trace (reached (process_logs w logs ?s1)) = trace ?s1 @ es" "filter is_query es = []"
      unfolding steady_def by blast
    have tr: "trace (reached (process_logs w logs ?s1)) = trace s @ GetLogs ?from blockNum # es"
      using es(1) t0 by simp
    show ?thesis
    proof (cases "process_logs w logs ?s1")
      case (Inl s2)
      then have "onBlock_try w blockNum s = Inl s2"
        using ne f Some by (simp add: onBlock_try_def Let_def)
      moreover have "lastProcessedBlock s2 = ?from - 1" using l Inl f by (simp add: reached_def)
      moreover have "trace s2 = trace s @ GetLogs ?from blockNum # es" using tr Inl by (simp add: reached_def)
      ultimately show ?thesis using es(2) by (simp add: reached_def)
    next
      case (Inr s2)
      then have "onBlock_try w blockNum s = Inr (s2\<lparr>lastProcessedBlock := blockNum\<rparr>)"
        using ne f Some by (simp add: onBlock_try_def Let_def)
      moreover have "trace s2 = trace s @ GetLogs ?from blockNum # es" using tr Inr by (simp add: reached_def)
      ultimately show ?thesis using es(2) by (simp add: reached_def)
    qed
  qed
qed

lemma onBlock_after_try:
  "lastProcessedBlock (onBlock w blockNum s) = lastProcessedBlock (reached (onBlock_try w blockNum s))"
  "trace (onBlock w blockNum s) =
     trace (reached (onBlock_try w blockNum s)) @
       (if isl (onBlock_try w blockNum s) then [ConsoleError ''Error while polling new blocks:''] else [])"
  by (cases "onBlock_try w blockNum s"; simp add: onBlock_def reached_def)+

lemma onBlock_cases:
  assumes "range_start s blockNum \<le> blockNum"
  shows "lastProcessedBlock (onBlock w blockNum s) =
           (if isl (onBlock_try w blockNum s) then range_start s blockNum - 1 else blockNum)"
    and "take 1 (new_effects s (onBlock w blockNum s)) = [GetLogs (range_start s blockNum) blockNum]"
    and "filter is_query (new_effects s (onBlock w blockNum s)) =
           [GetLogs (range_start s blockNum) blockNum]"
proof -
  from onBlock_try_cases [OF assms, of w] obtain es where
    l: "lastProcessedBlock (reached (onBlock_try w blockNum s)) =
          (if isl (onBlock_try w blockNum s) then range_start s blockNum - 1 else blockNum)"
    and t: "trace (reached (onBlock_try w blockNum s)) =
          trace s @ GetLogs (range_start s blockNum) blockNum # es"
    and q: "filter is_query es = []"
    by auto
  show "lastProcessedBlock (onBlock w blockNum s) =
           (if isl (onBlock_try w blockNum s) then range_start s blockNum - 1 else blockNum)"
    using l by (simp add: onBlock_after_try(1))
  have "trace (onBlock w blockNum s) =
      trace s @ (GetLogs (range_start s blockNum) blockNum # es @
        (if isl (onBlock_try w blockNum s) then [ConsoleError ''Error while polling new blocks:''] else []))"
    using t by (simp add: onBlock_after_try(2))
  from new_effects_append [OF this] q
  show "take 1 (new_effects s (onBlock w blockNum s)) = [GetLogs (range_start s blockNum) blockNum]"
    and "filter is_query (new_effects s (onBlock w blockNum s)) =
           [GetLogs (range_start s blockNum) blockNum]"
    by simp_all
qed

text \<open>
  Claim C6. The cursor starts at 0, which stands for no block processed yet. On a
  notification of height B in that state the pass queries the logs of the range from
  B to B, and nothing else. With a cursor that is set, and B above it, the pass queries
  the range from the cursor plus one to B, and nothing else. With a cursor that is set
  and B not above it the notification changes nothing at all: no query, no error
  reported. After a notification of a height above 1 the cursor is set, so that every
  later notification is handled in the second or third way.
\<close>

theorem block_range:
  "lastProcessedBlock initial = 0 \<and>
   (lastProcessedBlock s = 0 \<longrightarrow>
      take 1 (new_effects s (onBlock w B s)) = [GetLogs B B] \<and>
      filter is_query (new_effects s (onBlock w B s)) = [GetLogs B B]) \<and>
   (lastProcessedBlock s \<noteq> 0 \<and> lastProcessedBlock s + 1 \<le> B \<longrightarrow>
      take 1 (new_effects s (onBlock w B s)) = [GetLogs (lastProcessedBlock s + 1) B] \<and>
      filter is_query (new_effects s (onBlock w B s)) = [GetLogs (lastProcessedBlock s + 1) B]) \<and>
   (lastProcessedBlock s \<noteq> 0 \<and> B < lastProcessedBlock s + 1 \<longrightarrow> onBlock w B s = s) \<and>
   (0 \<le> lastProcessedBlock s \<and> 1 < B \<longrightarrow> 0 < lastProcessedBlock (onBlock w B s))"
proof (intro conjI impI)
  show "lastProcessedBlock initial = 0" by (simp add: initial_def)
next
  assume z: "lastProcessedBlock s = 0"
  then have r: "range_start s B = B" by (simp add: range_start_def)
  then have "range_start s B \<le> B" by simp
  from onBlock_cases(2,3) [OF this, of w] r
  show "take 1 (new_effects s (onBlock w B s)) = [GetLogs B B]"
    and "filter is_query (new_effects s (onBlock w B s)) = [GetLogs B B]" by simp_all
next
  assume h: "lastProcessedBlock s \<noteq> 0 \<and> lastProcessedBlock s + 1 \<le> B"
  then have r: "range_start s B = lastProcessedBlock s + 1" by (simp add: range_start_def)
  then have "range_start s B \<le> B" using h by simp
  from onBlock_cases(2,3) [OF this, of w] r
  show "take 1 (new_effects s (onBlock w B s)) = [GetLogs (lastProcessedBlock s + 1) B]"
    and "filter is_query (new_effects s (onBlock w B s)) = [GetLogs (lastProcessedBlock s + 1) B]"
    by simp_all
next
  assume "lastProcessedBlock s \<noteq> 0 \<and> B < lastProcessedBlock s + 1"
  then show "onBlock w B s = s" by (simp add: onBlock_empty_range)
next
  assume h: "0 \<le> lastProcessedBlock s \<and> 1 < B"
  show "0 < lastProcessedBlock (onBlock w B s)"
  proof (cases "range_start s B \<le> B")
    case True
    from onBlock_cases(1) [OF True, of w] h show ?thesis
      by (auto simp: range_start_def split: if_splits)
  next
    case False
    then have "lastProcessedBlock s \<noteq> 0 \<and> B < lastProcessedBlock s + 1"
      by (auto simp: range_start_def split: if_splits)
    then have "onBlock w B s = s" by (simp add: onBlock_empty_range)
    then show ?thesis using False h by (auto simp: range_start_def split: if_splits)
  qed
qed

theorem block_range_witness:
  "lastProcessedBlock initial = 0 \<and>
   take 1 (new_effects initial (onBlock demo_world 100 initial)) = [GetLogs 100 100] \<and>
   filter is_query (new_effects initial (onBlock demo_world 100 initial)) = [GetLogs 100 100] \<and>
   lastProcessedBlock started \<noteq> 0 \<and> lastProcessedBlock started + 1 \<le> 103 \<and>
   take 1 (new_effects started (onBlock demo_world 103 started)) = [GetLogs 101 103] \<and>
   filter is_query (new_effects started (onBlock demo_world 103 started)) = [GetLogs 101 103] \<and>
   (99 :: int) < lastProcessedBlock started + 1 \<and> onBlock demo_world 99 started = started \<and>
   0 \<le> lastProcessedBlock initial \<and> (1 :: int) < 100 \<and>
   0 < lastProcessedBlock (onBlock demo_world 100 initial)"
proof -
  have h1: "lastProcessedBlock initial = 0" by (simp add: initial_def)
  have h2: "lastProcessedBlock started \<noteq> 0 \<and> lastProcessedBlock started + 1 \<le> 103 \<and>
      lastProcessedBlock started + 1 = 101 \<and> (99 :: int) < lastProcessedBlock started + 1"
    by (simp add: started_def)
  from h1 h2 block_range [of initial demo_world 100] block_range [of started demo_world 103]
    block_range [of started demo_world 99]
  show ?thesis by simp
qed

lemma onBlock_not_backward:
  assumes "lastProcessedBlock s \<noteq> 0 \<or> 0 < B"
  shows "lastProcessedBlock s \<le> lastProcessedBlock (onBlock w B s)"
proof (cases "range_start s B \<le> B")
  case True
  from onBlock_cases(1) [OF True, of w] assms True show ?thesis
    by (auto simp: range_start_def split: if_splits)
next
  case False
  then have "lastProcessedBlock s \<noteq> 0 \<and> B < lastProcessedBlock s + 1"
    by (auto simp: range_start_def split: if_splits)
  then show ?thesis by (simp add: onBlock_empty_range)
qed

lemma run_blocks_monotone:
  "list_all (\<lambda>b. 0 < b) bs \<Longrightarrow> lastProcessedBlock s \<le> lastProcessedBlock (run_blocks w bs s)"
proof (induction bs arbitrary: s)
  case Nil
  show ?case by simp
next
  case (Cons b bs)
  have a: "lastProcessedBlock s \<le> lastProcessedBlock (onBlock w b s)"
    using Cons.prems by (intro onBlock_not_backward) simp
  have "lastProcessedBlock (onBlock w b s) \<le> lastProcessedBlock (run_blocks w bs (onBlock w b s))"
    using Cons.prems by (intro Cons.IH) simp
  with a show ?case by simp
qed

lemma onBlock_getLogs_fails:
  assumes "range_start s B \<le> B" "provider_getLogs w (tick s) (range_start s B) B = None"
  shows "isl (onBlock_try w B s)"
proof -
  have "tick (if lastProcessedBlock s = 0 then s\<lparr>lastProcessedBlock := B - 1\<rparr> else s) = tick s"
    by (simp add: tick_def)
  then show ?thesis
    using assms by (auto simp: onBlock_try_def Let_def range_start_def split: if_splits)
qed

text \<open>
  Claim C7 says that the cursor never moves backward. It does when two passes overlap:
  with the cursor at 100, blocks 101 and 102 are notified before either log query is
  answered; the pass for 102 ends first and sets the cursor to 102, then the pass for
  101 ends and sets it to 101.
\<close>

theorem overlapping_passes_move_cursor_back:
  "lastProcessedBlock started = 100 \<and>
   lastProcessedBlock (run_events demo_world [BlockEvent 101, BlockEvent 102, Settle 1] started) = 102 \<and>
   lastProcessedBlock
     (run_events demo_world [BlockEvent 101, BlockEvent 102, Settle 1, Settle 0] started) = 101 \<and>
   trace (run_events demo_world [BlockEvent 101, BlockEvent 102, Settle 1, Settle 0] started) =
     [GetLogs 101 101, GetLogs 101 102]"
  by (simp add: demo_defs)

text \<open>
  Claim C7, for passes that do not overlap: \<^verbatim>\<open>onBlock\<close> is the pass whose log query
  settles before any other event. With a cursor that is set, or a block height above 0,
  the cursor does not move backward in a pass, nor along a run of such passes over
  heights above 0. A pass whose log query fails ends with an exception; a pass that
  ends with an exception, from the log query or from the head query while the logs are
  handled, leaves the cursor where it was (on the first pass, just below B), and the
  next notification, finding that cursor set, queries the range from the same first
  block up to its own height. A pass that ends without an exception over a range that
  is not empty sets the cursor to B, and the next notification queries from B + 1.
\<close>

theorem cursor_retry:
  "onBlock w B s = run_events w [BlockEvent B, Settle 0] s \<and>
   (lastProcessedBlock s \<noteq> 0 \<or> 0 < B \<longrightarrow>
      lastProcessedBlock s \<le> lastProcessedBlock (onBlock w B s)) \<and>
   (list_all (\<lambda>b. 0 < b) bs \<longrightarrow> lastProcessedBlock s \<le> lastProcessedBlock (run_blocks w bs s)) \<and>
   ((lastProcessedBlock s = 0 \<or> lastProcessedBlock s < B) \<and>
    provider_getLogs w (tick s)
      (if lastProcessedBlock s = 0 then B else lastProcessedBlock s + 1) B = None \<longrightarrow>
      isl (onBlock_try w B s)) \<and>
   (isl (onBlock_try w B s) \<longrightarrow>
      lastProcessedBlock (onBlock w B s) =
        (if lastProcessedBlock s = 0 then B - 1 else lastProcessedBlock s) \<and>
      (lastProcessedBlock (onBlock w B s) \<noteq> 0 \<and>
       (if lastProcessedBlock s = 0 then B else lastProcessedBlock s + 1) \<le> B' \<longrightarrow>
         filter is_query (new_effects (onBlock w B s) (onBlock w B' (onBlock w B s))) =
           [GetLogs (if lastProcessedBlock s = 0 then B else lastProcessedBlock s + 1) B'])) \<and>
   (\<not> isl (onBlock_try w B s) \<and> (lastProcessedBlock s = 0 \<or> lastProcessedBlock s < B) \<longrightarrow>
      lastProcessedBlock (onBlock w B s) = B \<and>
      (B \<noteq> 0 \<and> B + 1 \<le> B' \<longrightarrow>
         filter is_query (new_effects (onBlock w B s) (onBlock w B' (onBlock w B s))) =
           [GetLogs (B + 1) B']))"
proof (intro conjI impI)
  show "onBlock w B s = run_events w [BlockEvent B, Settle 0] s"
    by (simp add: run_events_one_block)
next
  assume "lastProcessedBlock s \<noteq> 0 \<or> 0 < B"
  then show "lastProcessedBlock s \<le> lastProcessedBlock (onBlock w B s)"
    by (rule onBlock_not_backward)
next
  assume "list_all (\<lambda>b. 0 < b) bs"
  then show "lastProcessedBlock s \<le> lastProcessedBlock (run_blocks w bs s)"
    by (rule run_blocks_monotone)
next
  assume "(lastProcessedBlock s = 0 \<or> lastProcessedBlock s < B) \<and>
    provider_getLogs w (tick s)
      (if lastProcessedBlock s = 0 then B else lastProcessedBlock s + 1) B = None"
  then show "isl (onBlock_try w B s)"
    by (intro onBlock_getLogs_fails) (auto simp: range_start_def)
next
  assume f: "isl (onBlock_try w B s)"
  have nonempty: "range_start s B \<le> B"
  proof (rule ccontr)
    assume "\<not> range_start s B \<le> B"
    then have "lastProcessedBlock s \<noteq> 0 \<and> B < lastProcessedBlock s + 1"
      by (auto simp: range_start_def split: if_splits)
    then have "onBlock_try w B s = Inr s" by (simp add: onBlock_try_def)
    with f show False by simp
  qed
  from onBlock_cases(1) [OF nonempty, of w] f
  have l: "lastProcessedBlock (onBlock w B s) = range_start s B - 1" by simp
  then show "lastProcessedBlock (onBlock w B s) =
        (if lastProcessedBlock s = 0 then B - 1 else lastProcessedBlock s)"
    by (simp add: range_start_def)
  {
    assume n: "lastProcessedBlock (onBlock w B s) \<noteq> 0 \<and>
       (if lastProcessedBlock s = 0 then B else lastProcessedBlock s + 1) \<le> B'"
    have r: "range_start (onBlock w B s) B' = range_start s B"
      using n l by (simp add: range_start_def)
    then have "range_start (onBlock w B s) B' \<le> B'" using n by (simp add: range_start_def)
    from onBlock_cases(3) [OF this, of w] r
    show "filter is_query (new_effects (onBlock w B s) (onBlock w B' (onBlock w B s))) =
           [GetLogs (if lastProcessedBlock s = 0 then B else lastProcessedBlock s + 1) B']"
      by (simp add: range_start_def)
  }
next
  assume h: "\<not> isl (onBlock_try w B s) \<and> (lastProcessedBlock s = 0 \<or> lastProcessedBlock s < B)"
  then have nonempty: "range_start s B \<le> B" by (auto simp: range_start_def)
  from onBlock_cases(1) [OF nonempty, of w] h
  show l: "lastProcessedBlock (onBlock w B s) = B" by simp
  {
    assume n: "B \<noteq> 0 \<and> B + 1 \<le> B'"
    have r: "range_start (onBlock w B s) B' = B + 1"
      using l n by (simp add: range_start_def)
    then have "range_start (onBlock w B s) B' \<le> B'" using n by simp
    from onBlock_cases(3) [OF this, of w] r
    show "filter is_query (new_effects (onBlock w B s) (onBlock w B' (onBlock w B s))) =
           [GetLogs (B + 1) B']" by simp
  }
qed

theorem cursor_retry_witness:
  "(0 :: int) < 103 \<and>
   lastProcessedBlock started \<le> lastProcessedBlock (onBlock offline 103 started) \<and>
   list_all (\<lambda>b. 0 < b) [103, 104 :: int] \<and>
   lastProcessedBlock started \<le> lastProcessedBlock (run_blocks offline [103, 104] started) \<and>
   lastProcessedBlock started < 103 \<and>
   provider_getLogs offline (tick started) 101 103 = None \<and>
   isl (onBlock_try offline 103 started) \<and>
   lastProcessedBlock (onBlock offline 103 started) = 100 \<and>
   filter is_query (new_effects (onBlock offline 103 started)
     (onBlock offline 104 (onBlock offline 103 started))) = [GetLogs 101 104] \<and>
   \<not> isl (onBlock_try demo_world 103 started) \<and>
   lastProcessedBlock (onBlock demo_world 103 started) = 103 \<and>
   filter is_query (new_effects (onBlock demo_world 103 started)
     (onBlock demo_world 104 (onBlock demo_world 103 started))) = [GetLogs 104 104]"
proof -
  have h1: "(0 :: int) < 103 \<and> list_all (\<lambda>b. 0 < b) [103, 104 :: int] \<and>
      lastProcessedBlock started < 103 \<and> lastProcessedBlock started = 100"
    by (simp add: started_def)
  have h2: "provider_getLogs offline (tick started) 101 103 = None"
    by (simp add: offline_def)
  have h3: "\<not> isl (onBlock_try demo_world 103 started)"
    by (simp add: demo_defs)
  from h1 h2 h3 cursor_retry [of offline 103 started "[103, 104]" 104, THEN conjunct2]
    cursor_retry [of demo_world 103 started "[103, 104]" 104, THEN conjunct2]
  show ?thesis by simp
qed


section \<open>The confirmation gate\<close>

lemma process_logs_append:
  "process_logs w (xs @ ys) s =
     (case process_logs w xs s of Inl s' \<Rightarrow> Inl s' | Inr s' \<Rightarrow> process_logs w ys s')"
  by (induction xs arbitrary: s) (simp_all add: Let_def split: option.splits)

lemma process_logs_head_fails:
  "1 < CONFIRMATIONS w \<Longrightarrow> provider_getBlockNumber w (tick s) = None \<Longrightarrow>
   process_logs w (lg # logs) s = Inl (emit GetBlockNumber s)"
  by simp

text \<open>
  Claim C3, on the code, with three confirmations required and a mint logged in block
  100. In the subscription variant the head query fails, the empty \<^verbatim>\<open>catch\<close> swallows
  the failure and the callback goes on to \<^verbatim>\<open>handleLog\<close>: the message is dispatched at
  once. In the polling variant the head query fails in the pass for block 100: the
  pass ends with the error reported and the cursor below 100. The pass for block 101
  queries the range from 100 again, finds the head at 101 and skips the log, and the
  cursor moves to 101: the log is never handled.
\<close>

theorem failed_head_query_notifies:
  "CONFIRMATIONS headless = 3 \<and> provider_getBlockNumber headless (tick initial) = None \<and>
   new_effects initial (onLog headless (Some mint_log) initial) =
     [GetBlockNumber, ParseLog mint_log, CallSymbol token_addr, CallDecimals token_addr,
      SendMessage mint_msg True] \<and>
   CONFIRMATIONS flaky_head = 3 \<and> provider_getBlockNumber flaky_head 1 = None \<and>
   trace (onBlock flaky_head 100 initial) =
     [GetLogs 100 100, GetBlockNumber, ConsoleError ''Error while polling new blocks:''] \<and>
   lastProcessedBlock (onBlock flaky_head 100 initial) = 99 \<and>
   provider_getBlockNumber flaky_head 4 = Some 101 \<and>
   trace (run_blocks flaky_head [100, 101, 102] initial) =
     [GetLogs 100 100, GetBlockNumber, ConsoleError ''Error while polling new blocks:'',
      GetLogs 100 101, GetBlockNumber, GetLogs 102 102] \<and>
   lastProcessedBlock (run_blocks flaky_head [100, 101] initial) = 101 \<and>
   lastSeenTx (run_blocks flaky_head [100, 101, 102] initial) = []"
  by (simp add: demo_defs numeral_2_eq_2)


text \<open>
  Claim C1, on the code. Three confirmations are required and a mint is logged in block
  100. The pass for block 100 finds the head at 101, skips the log and sets the cursor
  to 100. The passes for blocks 101 and 102 query the ranges from 101 to 101 and from
  102 to 102; the head is 102 by then, the log would be confirmed, and it is outside
  every range queried: no message is ever dispatched for it. In the subscription
  variant the callback only sets a timer whose action fetches a block and drops it.
\<close>

theorem unconfirmed_log_is_dropped:
  "CONFIRMATIONS gated = 3 \<and> blockNumber mint_log = 100 \<and>
   provider_getLogs gated 0 100 100 = Some [mint_log] \<and>
   provider_getBlockNumber gated 1 = Some 101 \<and>
   new_effects initial (onBlock gated 100 initial) = [GetLogs 100 100, GetBlockNumber] \<and>
   lastProcessedBlock (onBlock gated 100 initial) = 100 \<and>
   provider_getBlockNumber gated 3 = Some 102 \<and>
   trace (run_blocks gated [100, 101, 102] initial) =
     [GetLogs 100 100, GetBlockNumber, GetLogs 101 101, GetLogs 102 102] \<and>
   lastProcessedBlock (run_blocks gated [100, 101, 102] initial) = 102 \<and>
   lastSeenTx (run_blocks gated [100, 101, 102] initial) = [] \<and>
   new_effects initial (onLog gated (Some mint_log) initial) =
     [GetBlockNumber, SetTimeout 30000 100]"
  by (simp add: demo_defs)

end
